theory Spec2Isabelle
  imports Complex_Main "HOL-Library.Stream"
begin

section \<open>The random sources\<close>

text \<open>
  The program draws all its randomness from two process-wide generators: Python's
  \<^verbatim>\<open>random\<close> module (imported as \<^verbatim>\<open>rn\<close>) and NumPy's legacy global
  \<^verbatim>\<open>np.random\<close>.  Neither is code of the repository.  Each generator is modelled by the
  stream of raw draws it is still going to deliver: one library call consumes one cell and
  maps it into the range its documentation promises.  Floats are idealised as reals.
\<close>

datatype error = ValueError | ZeroDivisionError

type_synonym tape = "nat stream"

text \<open>A float in \<open>[0, 1)\<close> with 53 bits of resolution, as \<^verbatim>\<open>random()\<close> builds it.\<close>

definition unit_float :: "nat \<Rightarrow> real" where
  "unit_float r = real (r mod 2 ^ 53) / 2 ^ 53"

text \<open>\<^verbatim>\<open>rn.random()\<close>: the next float in \<open>[0, 1)\<close>.\<close>

definition rn_random :: "tape \<Rightarrow> real \<times> tape" where
  "rn_random t = (unit_float (shd t), stl t)"

text \<open>
  \<^verbatim>\<open>rn.randint(a, b)\<close>: an integer \<open>N\<close> with \<open>a \<le> N \<le> b\<close>; an empty range raises
  \<^verbatim>\<open>ValueError\<close>.
\<close>

definition rn_randint :: "int \<Rightarrow> int \<Rightarrow> tape \<Rightarrow> error + (int \<times> tape)" where
  "rn_randint a b t =
     (if b < a then Inl ValueError
      else Inr (a + int (shd t mod nat (b - a + 1)), stl t))"

text \<open>\<^verbatim>\<open>np.random.uniform(low, high)\<close>: \<open>low + (high - low) * u\<close> for a float \<open>u\<close> in \<open>[0, 1)\<close>.\<close>

definition np_uniform :: "real \<Rightarrow> real \<Rightarrow> tape \<Rightarrow> real \<times> tape" where
  "np_uniform low high t = (low + (high - low) * unit_float (shd t), stl t)"

text \<open>
  \<^verbatim>\<open>cdf.searchsorted(u, side='right')\<close> on a non-decreasing array: the number of leading
  entries that are \<open>\<le> u\<close>.
\<close>

definition searchsorted_right :: "real list \<Rightarrow> real \<Rightarrow> nat" where
  "searchsorted_right cdf u = length (takeWhile (\<lambda>c. c \<le> u) cdf)"

primrec cumsum :: "real \<Rightarrow> real list \<Rightarrow> real list" where
  "cumsum acc [] = []"
| "cumsum acc (x # xs) = (acc + x) # cumsum (acc + x) xs"

text \<open>
  \<^verbatim>\<open>np.random.choice(a, size, replace=True, p=None)\<close> for a one-dimensional population
  \<^verbatim>\<open>a\<close>, an integer \<^verbatim>\<open>size\<close> and sampling with replacement.  Without \<^verbatim>\<open>p\<close> the
  indices come from \<^verbatim>\<open>randint(0, len(a), size)\<close>; with \<^verbatim>\<open>p\<close> they are found by
  inverting the cumulative distribution at uniform samples.  An empty population, a
  negative size, and a \<^verbatim>\<open>p\<close> of the wrong length, with a negative entry or not summing to
  one raise \<^verbatim>\<open>ValueError\<close>.
\<close>

definition np_choice :: "'a list \<Rightarrow> int \<Rightarrow> real list option \<Rightarrow> tape \<Rightarrow> error + ('a list \<times> tape)" where
  "np_choice a sz p t =
     (if a = [] then Inl ValueError
      else case p of
        None \<Rightarrow>
          if sz < 0 then Inl ValueError
          else Inr (map (\<lambda>r. a ! (r mod length a)) (stake (nat sz) t), sdrop (nat sz) t)
      | Some ps \<Rightarrow>
          if length ps = length a then
            if list_ex (\<lambda>x. x < 0) ps then Inl ValueError
            else if sum_list ps = 1 then
              if sz < 0 then Inl ValueError
              else Inr (map (\<lambda>r. a ! searchsorted_right (cumsum 0 ps) (unit_float r))
                          (stake (nat sz) t),
                        sdrop (nat sz) t)
            else Inl ValueError
          else Inl ValueError)"

section \<open>String operations\<close>

text \<open>
  \<^verbatim>\<open>polyleven.levenshtein\<close> (imported as \<^verbatim>\<open>ld\<close>): the Levenshtein distance, the least
  number of single-symbol insertions, deletions and substitutions that turn one string into
  the other.
\<close>

fun ld :: "'a list \<Rightarrow> 'a list \<Rightarrow> nat" where
  "ld [] ys = length ys"
| "ld (x # xs) [] = Suc (length xs)"
| "ld (x # xs) (y # ys) =
     min (min (Suc (ld xs (y # ys))) (Suc (ld (x # xs) ys)))
         ((if x = y then 0 else 1) + ld xs ys)"

text \<open>
  \<^verbatim>\<open>string_generator(p, l)\<close> calls \<^verbatim>\<open>np.random.choice(['0','1'], l, [p, 1-p])\<close>.  The third
  positional parameter of \<^verbatim>\<open>choice\<close> is \<^verbatim>\<open>replace\<close>, so the list \<^verbatim>\<open>[p, 1-p]\<close> is taken as
  a (true) \<^verbatim>\<open>replace\<close> flag and the distribution \<^verbatim>\<open>p\<close> of \<^verbatim>\<open>choice\<close> stays \<^verbatim>\<open>None\<close>.
\<close>

definition string_generator :: "real \<Rightarrow> int \<Rightarrow> tape \<Rightarrow> error + (string \<times> tape)" where
  "string_generator p l t = np_choice [CHR ''0'', CHR ''1''] l None t"

text \<open>\<^verbatim>\<open>max([len(technologies), len(space)])\<close> is zero for two empty strings: the division raises.\<close>

definition evaluate :: "string \<Rightarrow> string \<Rightarrow> error + real" where
  "evaluate technologies space =
     (if max (length technologies) (length space) = 0 then Inl ZeroDivisionError
      else Inr (1 - real (ld technologies space)
                    / real (max (length technologies) (length space))))"

definition flip :: "string \<Rightarrow> tape \<Rightarrow> error + (string \<times> tape)" where
  "flip str t =
     (case rn_randint 0 (int (length str) - 1) t of
        Inl e \<Rightarrow> Inl e
      | Inr (position, t') \<Rightarrow>
          Inr (take (nat position) str
               @ [if str ! nat position = CHR ''1'' then CHR ''0'' else CHR ''1'']
               @ drop (nat (position + 1)) str, t'))"

definition insert_bit :: "string \<Rightarrow> tape \<Rightarrow> error + (string \<times> tape)" where
  "insert_bit str t =
     (case rn_randint 0 (int (length str)) t of
        Inl e \<Rightarrow> Inl e
      | Inr (position, t') \<Rightarrow>
          (case rn_random t' of
             (u, t'') \<Rightarrow>
               Inr (take (nat position) str
                    @ [if u < 0.5 then CHR ''0'' else CHR ''1'']
                    @ drop (nat position) str, t'')))"

definition delete :: "string \<Rightarrow> tape \<Rightarrow> error + (string \<times> tape)" where
  "delete str t =
     (case rn_randint 0 (int (length str) - 1) t of
        Inl e \<Rightarrow> Inl e
      | Inr (position, t') \<Rightarrow>
          Inr (take (nat position) str @ drop (nat (position + 1)) str, t'))"

text \<open>
  \<^verbatim>\<open>string_edit\<close>, first half (the draw of \<^verbatim>\<open>p\<close> and the three-way branch that binds
  \<^verbatim>\<open>new\<close>): the candidate.
\<close>

definition edit_candidate :: "string \<Rightarrow> tape \<Rightarrow> error + (string \<times> tape)" where
  "edit_candidate str_1 t =
     (case rn_random t of
        (p, t') \<Rightarrow>
          if p < 1 / 3 then flip str_1 t'
          else if p < 2 / 3 then insert_bit str_1 t'
          else if length str_1 > 1 then delete str_1 t'
          else Inr (str_1, t'))"

text \<open>\<^verbatim>\<open>string_edit\<close>: the candidate, then the selection logic.\<close>

definition string_edit :: "string \<Rightarrow> string \<Rightarrow> real \<Rightarrow> tape \<Rightarrow> error + (string \<times> tape)" where
  "string_edit str_1 str_2 eff t =
     (case edit_candidate str_1 t of
        Inl e \<Rightarrow> Inl e
      | Inr (new, t') \<Rightarrow>
          (case rn_random t' of
             (q, t'') \<Rightarrow>
               if q < eff then
                 (case evaluate new str_2 of
                    Inl e \<Rightarrow> Inl e
                  | Inr e_new \<Rightarrow>
                      (case evaluate str_1 str_2 of
                         Inl e \<Rightarrow> Inl e
                       | Inr e_old \<Rightarrow>
                           if e_new \<le> e_old then Inr (str_1, t'') else Inr (new, t'')))
               else Inr (new, t'')))"

section \<open>The resource model and the society\<close>

definition resource_function :: "nat \<Rightarrow> real \<Rightarrow> nat \<Rightarrow> real" where
  "resource_function cS effectiveness cT =
     (real cS * effectiveness) - (real cT * (1 - effectiveness))"

record society =
  space :: string
  technologies :: string
  resource_store :: real
  initial_endowment :: real
  is_depleted :: bool

text \<open>\<^verbatim>\<open>Society.__init__\<close>; the two strings are drawn from NumPy's generator.\<close>

definition Society_init ::
  "int \<Rightarrow> real option \<Rightarrow> int \<Rightarrow> real option \<Rightarrow> real \<Rightarrow> tape \<Rightarrow> error + (society \<times> tape)" where
  "Society_init s_length s_prob t_length t_prob endowment np =
     (case (case s_prob of None \<Rightarrow> np_uniform 0 1 np | Some p \<Rightarrow> (p, np)) of
        (s_p, np1) \<Rightarrow>
     (case (case t_prob of None \<Rightarrow> np_uniform 0 1 np1 | Some p \<Rightarrow> (p, np1)) of
        (t_p, np2) \<Rightarrow>
     (case string_generator s_p s_length np2 of
        Inl e \<Rightarrow> Inl e
      | Inr (sp, np3) \<Rightarrow>
     (case string_generator t_p t_length np3 of
        Inl e \<Rightarrow> Inl e
      | Inr (te, np4) \<Rightarrow>
          Inr (\<lparr>space = sp, technologies = te, resource_store = endowment,
                initial_endowment = endowment, is_depleted = False\<rparr>, np4)))))"

text \<open>
  \<^verbatim>\<open>Society.update_resource_store\<close>: the returned float and the society as the call
  leaves it.
\<close>

definition update_resource_store :: "society \<Rightarrow> real \<Rightarrow> real \<times> society" where
  "update_resource_store s net_resources =
     (if net_resources \<ge> 1 then (net_resources, s)
      else
        let deficit = (if net_resources \<ge> 0 then 1 else \<bar>net_resources\<bar>) in
        if resource_store s \<ge> deficit
        then (1, s\<lparr>resource_store := resource_store s - deficit\<rparr>)
        else (resource_store s, s\<lparr>resource_store := 0, is_depleted := True\<rparr>))"

definition tradeoff :: "int \<Rightarrow> real \<Rightarrow> tape \<Rightarrow> error + (bool list \<times> tape)" where
  "tradeoff iterations p np = np_choice [True, False] iterations (Some [p, 1 - p]) np"

definition ce_technologies :: "string \<Rightarrow> string \<Rightarrow> real \<Rightarrow> tape \<Rightarrow> error + (string \<times> tape)" where
  "ce_technologies techs sp \<eta> rn = string_edit techs sp \<eta> rn"

definition ce_space :: "string \<Rightarrow> string \<Rightarrow> real \<Rightarrow> tape \<Rightarrow> error + (string \<times> tape)" where
  "ce_space sp techs lam rn = string_edit sp techs lam rn"

section \<open>The simulation\<close>

text \<open>
  The arguments of \<^verbatim>\<open>simulation\<close> that reach the computation (\<^verbatim>\<open>path\<close>, \<^verbatim>\<open>printing\<close> and
  \<^verbatim>\<open>write\<close> only steer console and file output).
\<close>

record params =
  arg_seed :: int
  arg_limit :: int
  arg_generations :: int
  arg_s_length :: int
  arg_s_prob :: "real option"
  arg_t_length :: int
  arg_t_prob :: "real option"
  arg_eta :: real
  arg_lambda :: real
  arg_initial_endowment :: real
  arg_p_tradeoff :: real

text \<open>One row of the output table, with the columns of \<^verbatim>\<open>dataframe\<close>.\<close>

record row =
  col_seed :: int
  col_generation :: int
  col_tech_complexity :: nat
  col_space_complexity :: nat
  col_effectiveness :: real
  col_initial_tech :: int
  col_initial_space :: int
  col_eta :: real
  col_lambda :: real
  col_initial_endowment :: real
  col_p_tradeoff :: real
  col_available_resources :: real
  col_resource_store :: real

definition output_row :: "params \<Rightarrow> int \<Rightarrow> society \<Rightarrow> real \<Rightarrow> real \<Rightarrow> row" where
  "output_row a gen s effectiveness available_resources =
     \<lparr>col_seed = arg_seed a, col_generation = gen,
      col_tech_complexity = length (technologies s),
      col_space_complexity = length (space s),
      col_effectiveness = effectiveness,
      col_initial_tech = arg_t_length a, col_initial_space = arg_s_length a,
      col_eta = arg_eta a, col_lambda = arg_lambda a,
      col_initial_endowment = arg_initial_endowment a,
      col_p_tradeoff = arg_p_tradeoff a,
      col_available_resources = available_resources,
      col_resource_store = resource_store s\<rparr>"

text \<open>
  The method calls the engine makes on its society are logged with the society as the
  call finds it and as the engine holds it afterwards.  The log is bookkeeping of the
  model: no result depends on it.
\<close>

datatype operation = Update_resource_store | Tradeoff | Ce_technologies | Ce_space

record call =
  call_op :: operation
  before :: society
  after :: society

text \<open>The message the run prints when it stops tells which of its three exits it took.\<close>

datatype outcome = Depleted int | Complexity_limit int | Complete

record run =
  outcome :: outcome
  rows :: "row list"
  final :: society
  calls :: "call list"

text \<open>Python's \<^verbatim>\<open>round\<close>: to the nearest integer, a tie to the even one.\<close>

definition py_round :: "real \<Rightarrow> int" where
  "py_round x =
     (if x - of_int \<lfloor>x\<rfloor> < 1 / 2 then \<lfloor>x\<rfloor>
      else if 1 / 2 < x - of_int \<lfloor>x\<rfloor> then \<lfloor>x\<rfloor> + 1
      else if even \<lfloor>x\<rfloor> then \<lfloor>x\<rfloor> else \<lfloor>x\<rfloor> + 1)"

text \<open>The loop \<^verbatim>\<open>for choice in choices\<close>.\<close>

fun apply_choices ::
  "real \<Rightarrow> real \<Rightarrow> bool list \<Rightarrow> society \<Rightarrow> tape \<Rightarrow> error + (society \<times> tape \<times> call list)" where
  "apply_choices \<eta> lam [] s rn = Inr (s, rn, [])"
| "apply_choices \<eta> lam (choice # choices) s rn =
     (if choice then
        (case ce_technologies (technologies s) (space s) \<eta> rn of
           Inl e \<Rightarrow> Inl e
         | Inr (new_tech, rn') \<Rightarrow>
             (case apply_choices \<eta> lam choices (s\<lparr>technologies := new_tech\<rparr>) rn' of
                Inl e \<Rightarrow> Inl e
              | Inr (s', rn'', cs) \<Rightarrow>
                  Inr (s', rn'',
                       \<lparr>call_op = Ce_technologies, before = s,
                        after = s\<lparr>technologies := new_tech\<rparr>\<rparr> # cs)))
      else
        (case ce_space (space s) (technologies s) lam rn of
           Inl e \<Rightarrow> Inl e
         | Inr (new_space, rn') \<Rightarrow>
             (case apply_choices \<eta> lam choices (s\<lparr>space := new_space\<rparr>) rn' of
                Inl e \<Rightarrow> Inl e
              | Inr (s', rn'', cs) \<Rightarrow>
                  Inr (s', rn'',
                       \<lparr>call_op = Ce_space, before = s,
                        after = s\<lparr>space := new_space\<rparr>\<rparr> # cs))))"

text \<open>
  The part of the loop body from \<^verbatim>\<open>iterations = ...\<close> to the end of the inner loop: the
  cultural evolutionary dynamics of one generation.
\<close>

definition evolve ::
  "params \<Rightarrow> real \<Rightarrow> society \<Rightarrow> tape \<Rightarrow> tape \<Rightarrow> error + (society \<times> tape \<times> tape \<times> call list)" where
  "evolve a available_resources s np rn =
     (let iterations = (if available_resources \<ge> 1 then py_round available_resources else 1) in
      if iterations > 0 then
        (case tradeoff iterations (arg_p_tradeoff a) np of
           Inl e \<Rightarrow> Inl e
         | Inr (choices, np') \<Rightarrow>
             (case apply_choices (arg_eta a) (arg_lambda a) choices s rn of
                Inl e \<Rightarrow> Inl e
              | Inr (s', rn', cs) \<Rightarrow>
                  Inr (s', np', rn', \<lparr>call_op = Tradeoff, before = s, after = s\<rparr> # cs)))
      else Inr (s, np, rn, []))"

text \<open>
  The loop \<^verbatim>\<open>for gen in range(1, generations)\<close>: the first argument counts the generations
  still to run, \<open>gen\<close> is the loop variable.
\<close>

fun generation_loop ::
  "params \<Rightarrow> nat \<Rightarrow> int \<Rightarrow> society \<Rightarrow> tape \<Rightarrow> tape \<Rightarrow> row list \<Rightarrow> error + run" where
  "generation_loop a 0 gen s np rn output =
     Inr \<lparr>outcome = Complete, rows = output, final = s, calls = []\<rparr>"
| "generation_loop a (Suc k) gen s np rn output =
     (case evaluate (space s) (technologies s) of
        Inl e \<Rightarrow> Inl e
      | Inr eff \<Rightarrow>
     (case update_resource_store s
             (resource_function (length (space s)) eff (length (technologies s))) of
        (available_resources, s1) \<Rightarrow>
          if is_depleted s1 then
            Inr \<lparr>outcome = Depleted gen, rows = output, final = s1,
                 calls = [\<lparr>call_op = Update_resource_store, before = s, after = s1\<rparr>]\<rparr>
          else
     (case evolve a available_resources s1 np rn of
        Inl e \<Rightarrow> Inl e
      | Inr (s2, np', rn', cs) \<Rightarrow>
     (case evaluate (technologies s2) (space s2) of
        Inl e \<Rightarrow> Inl e
      | Inr effectiveness \<Rightarrow>
          if int (length (technologies s2)) \<ge> arg_limit a then
            Inr \<lparr>outcome = Complexity_limit gen,
                 rows = output @ [output_row a gen s2 effectiveness available_resources],
                 final = s2,
                 calls = \<lparr>call_op = Update_resource_store, before = s, after = s1\<rparr> # cs\<rparr>
          else
     (case generation_loop a k (gen + 1) s2 np' rn'
             (output @ [output_row a gen s2 effectiveness available_resources]) of
        Inl e \<Rightarrow> Inl e
      | Inr r \<Rightarrow>
          Inr (r\<lparr>calls := \<lparr>call_op = Update_resource_store, before = s, after = s1\<rparr>
                            # cs @ calls r\<rparr>))))))"

text \<open>
  The state of the two process-wide generators, and the seeding algorithms of the two
  libraries, which are taken as parameters.
\<close>

record rng =
  np_state :: tape
  rn_state :: tape

record prng =
  np_seed :: "int \<Rightarrow> tape"
  rn_seed :: "int \<Rightarrow> tape"

text \<open>\<^verbatim>\<open>np.random.seed(seed)\<close> raises \<^verbatim>\<open>ValueError\<close> unless \<open>0 \<le> seed < 2^32\<close>.\<close>

definition seed_all :: "prng \<Rightarrow> int \<Rightarrow> rng \<Rightarrow> error + rng" where
  "seed_all G sd g =
     (if sd < 0 then Inl ValueError
      else if 2 ^ 32 \<le> sd then Inl ValueError
      else Inr (g\<lparr>np_state := np_seed G sd, rn_state := rn_seed G sd\<rparr>))"

text \<open>
  \<^verbatim>\<open>simulation\<close>, started with the generators in state \<open>g\<close>: the exit taken, the table,
  the society at the end and the call log.
\<close>

definition simulation_run :: "prng \<Rightarrow> rng \<Rightarrow> params \<Rightarrow> error + run" where
  "simulation_run G g a =
     (case seed_all G (arg_seed a) g of
        Inl e \<Rightarrow> Inl e
      | Inr g0 \<Rightarrow>
     (case Society_init (arg_s_length a) (arg_s_prob a) (arg_t_length a) (arg_t_prob a)
             (arg_initial_endowment a) (np_state g0) of
        Inl e \<Rightarrow> Inl e
      | Inr (s, np) \<Rightarrow>
     (case evaluate (technologies s) (space s) of
        Inl e \<Rightarrow> Inl e
      | Inr effectiveness \<Rightarrow>
     (case evaluate (space s) (technologies s) of
        Inl e \<Rightarrow> Inl e
      | Inr eff \<Rightarrow>
     (case update_resource_store s
             (resource_function (length (space s)) eff (length (technologies s))) of
        (available_resources, s1) \<Rightarrow>
     (case generation_loop a (nat (arg_generations a - 1)) 1 s1 np (rn_state g0)
             [output_row a 0 s1 effectiveness available_resources] of
        Inl e \<Rightarrow> Inl e
      | Inr r \<Rightarrow>
          Inr (r\<lparr>calls := \<lparr>call_op = Update_resource_store, before = s, after = s1\<rparr>
                            # calls r\<rparr>)))))))"

text \<open>\<^verbatim>\<open>simulation\<close> as its caller sees it: the printed exit and the returned table.\<close>

definition simulation :: "prng \<Rightarrow> rng \<Rightarrow> params \<Rightarrow> error + (outcome \<times> row list)" where
  "simulation G g a =
     (case simulation_run G g a of
        Inl e \<Rightarrow> Inl e
      | Inr r \<Rightarrow> Inr (outcome r, rows r))"

section \<open>Vocabulary of the properties\<close>

text \<open>
  The specification of the edit distance: \<open>edits n xs ys\<close> says that \<open>xs\<close> is turned
  into \<open>ys\<close> by \<open>n\<close> single-symbol insertions, deletions and substitutions, read off
  from left to right.  The Levenshtein distance is the least such \<open>n\<close>.
\<close>

inductive edits :: "nat \<Rightarrow> 'a list \<Rightarrow> 'a list \<Rightarrow> bool" where
  finish: "edits 0 [] []"
| keep: "edits n xs ys \<Longrightarrow> edits n (x # xs) (x # ys)"
| substitute: "edits n xs ys \<Longrightarrow> edits (Suc n) (x # xs) (y # ys)"
| insertion: "edits n xs ys \<Longrightarrow> edits (Suc n) xs (y # ys)"
| deletion: "edits n xs ys \<Longrightarrow> edits (Suc n) (x # xs) ys"

text \<open>Both strings of the society are non-empty.\<close>

definition nonempty :: "society \<Rightarrow> bool" where
  "nonempty s = (space s \<noteq> [] \<and> technologies s \<noteq> [])"

text \<open>
  A call log that leads from one society to another: every call finds the society as the
  call before it left it.
\<close>

fun chained :: "society \<Rightarrow> call list \<Rightarrow> society \<Rightarrow> bool" where
  "chained s [] s' = (s = s')"
| "chained s (c # cs) s' = (before c = s \<and> chained (after c) cs s')"

text \<open>Two societies with the same store, endowment and depletion flag.\<close>

definition same_resources :: "society \<Rightarrow> society \<Rightarrow> bool" where
  "same_resources s s' =
     (resource_store s' = resource_store s \<and> is_depleted s' = is_depleted s
      \<and> initial_endowment s' = initial_endowment s)"

text \<open>
  A logged call of the inner loop: it is not a store update, it has non-empty strings on
  both sides and it leaves the resources of \<open>s\<close>.
\<close>

definition edit_call :: "society \<Rightarrow> call \<Rightarrow> bool" where
  "edit_call s c =
     (nonempty (before c) \<and> nonempty (after c)
      \<and> same_resources s (before c) \<and> same_resources s (after c)
      \<and> call_op c \<noteq> Update_resource_store)"

text \<open>
  What the loop adds to the table in at most \<open>k\<close> generations from generation \<open>gen\<close> on:
  consecutive generation numbers, complexities of at least one, and per exit the number
  of rows added and the generation at which the run stopped.
\<close>

definition rows_ok :: "params \<Rightarrow> nat \<Rightarrow> int \<Rightarrow> run \<Rightarrow> row list \<Rightarrow> bool" where
  "rows_ok a k gen r new =
     (map col_generation new = map (\<lambda>i. gen + int i) [0..<length new]
      \<and> (\<forall>x\<in>set new. 1 \<le> col_tech_complexity x \<and> 1 \<le> col_space_complexity x)
      \<and> (case outcome r of
            Depleted g \<Rightarrow>
              g = gen + int (length new) \<and> length new < k \<and> is_depleted (final r)
              \<and> (\<forall>x\<in>set new. int (col_tech_complexity x) < arg_limit a)
          | Complexity_limit g \<Rightarrow>
              new \<noteq> [] \<and> g = gen + int (length new) - 1 \<and> length new \<le> k
              \<and> arg_limit a \<le> int (col_tech_complexity (last new))
              \<and> (\<forall>x\<in>set (butlast new). int (col_tech_complexity x) < arg_limit a)
          | Complete \<Rightarrow>
              length new = k \<and> (\<forall>x\<in>set new. int (col_tech_complexity x) < arg_limit a)))"

text \<open>
  What the call log of a loop started on society \<open>s\<close> looks like: it is chained to the
  final society, a depleted society has an empty store, only a store update depletes, and
  a loop started on a depleted society makes at most one call, a store update that changes
  nothing.
\<close>

definition calls_ok :: "society \<Rightarrow> run \<Rightarrow> bool" where
  "calls_ok s r =
     (chained s (calls r) (final r) \<and> nonempty (final r)
      \<and> (is_depleted (final r) \<longrightarrow> resource_store (final r) = 0)
      \<and> (\<forall>c\<in>set (calls r). nonempty (before c) \<and> nonempty (after c)
            \<and> (is_depleted (after c) \<longrightarrow>
                  resource_store (after c) = 0 \<and> call_op c = Update_resource_store))
      \<and> (if is_depleted s
          then calls r = []
             \<or> calls r = [\<lparr>call_op = Update_resource_store, before = s, after = s\<rparr>]
          else \<forall>c\<in>set (calls r). \<not> is_depleted (before c)))"

text \<open>The store updates in a call log: one per generation that was started.\<close>

definition updates :: "call list \<Rightarrow> call list" where
  "updates cs = filter (\<lambda>c. call_op c = Update_resource_store) cs"

text \<open>
  How a loop started on a society that is not depleted, at generation \<open>gen\<close> with \<open>k\<close>
  generations to run, comes to its exit.  On depletion the last call is the store update
  that depleted the society and no earlier call left it depleted.  On the other two exits
  no call left the society depleted.  The number of store updates is the number of
  generations started, and on the complexity limit the last row shows the length of the
  final technological system.
\<close>

definition stops_ok :: "int \<Rightarrow> nat \<Rightarrow> run \<Rightarrow> bool" where
  "stops_ok gen k r =
     (case outcome r of
        Depleted g \<Rightarrow>
          calls r \<noteq> [] \<and> call_op (last (calls r)) = Update_resource_store
          \<and> is_depleted (after (last (calls r))) \<and> is_depleted (final r)
          \<and> (\<forall>c\<in>set (butlast (calls r)). \<not> is_depleted (after c))
          \<and> int (length (updates (calls r))) = g - gen + 1
      | Complexity_limit g \<Rightarrow>
          (\<forall>c\<in>set (calls r). \<not> is_depleted (after c)) \<and> \<not> is_depleted (final r)
          \<and> int (length (updates (calls r))) = g - gen + 1
          \<and> rows r \<noteq> []
          \<and> col_tech_complexity (last (rows r)) = length (technologies (final r))
      | Complete \<Rightarrow>
          (\<forall>c\<in>set (calls r). \<not> is_depleted (after c)) \<and> \<not> is_depleted (final r)
          \<and> length (updates (calls r)) = k)"

text \<open>
  The generator of the specification, in its words: every symbol is \<open>1\<close> with probability
  \<open>p\<close> and \<open>0\<close> otherwise, independently, read over the uniform draws of the stream.
\<close>

definition generate_spec :: "real \<Rightarrow> nat \<Rightarrow> tape \<Rightarrow> string" where
  "generate_spec p n t =
     map (\<lambda>r. if unit_float r < p then CHR ''1'' else CHR ''0'') (stake n t)"

text \<open>An initial probability that is left to chance or lies in \<open>[0, 1]\<close>.\<close>

definition prob_ok :: "real option \<Rightarrow> bool" where
  "prob_ok p = (case p of None \<Rightarrow> True | Some q \<Rightarrow> 0 \<le> q \<and> q \<le> 1)"

text \<open>A seeding that delivers the same two streams for every seed, for worked examples.\<close>

definition constant_prng :: "tape \<Rightarrow> tape \<Rightarrow> prng" where
  "constant_prng np rn = \<lparr>np_seed = (\<lambda>sd. np), rn_seed = (\<lambda>sd. rn)\<rparr>"

text \<open>Parameters and generator states for worked examples.\<close>

definition example_rng :: rng where
  "example_rng = \<lparr>np_state = sconst 0, rn_state = sconst 0\<rparr>"

definition example_invalid :: params where
  "example_invalid =
     \<lparr>arg_seed = 1, arg_limit = 20, arg_generations = 2, arg_s_length = 2,
      arg_s_prob = Some (1 / 2), arg_t_length = 2, arg_t_prob = Some (1 / 2),
      arg_eta = 1 / 2, arg_lambda = 1 / 2, arg_initial_endowment = - 5,
      arg_p_tradeoff = 1 / 2\<rparr>"

definition example_limit :: params where
  "example_limit =
     \<lparr>arg_seed = 1, arg_limit = 2, arg_generations = 2, arg_s_length = 2,
      arg_s_prob = Some (1 / 2), arg_t_length = 2, arg_t_prob = Some (1 / 2),
      arg_eta = 1 / 2, arg_lambda = 1 / 2, arg_initial_endowment = 100,
      arg_p_tradeoff = 1 / 2\<rparr>"

definition example_exhausting :: params where
  "example_exhausting =
     \<lparr>arg_seed = 1, arg_limit = 20, arg_generations = 2, arg_s_length = 1,
      arg_s_prob = Some (1 / 2), arg_t_length = 1, arg_t_prob = Some (1 / 2),
      arg_eta = 1 / 2, arg_lambda = 1 / 2, arg_initial_endowment = 1,
      arg_p_tradeoff = 1 / 2\<rparr>"

definition example_depleting :: params where
  "example_depleting =
     \<lparr>arg_seed = 1, arg_limit = 20, arg_generations = 2, arg_s_length = 1,
      arg_s_prob = Some (1 / 2), arg_t_length = 1, arg_t_prob = Some (1 / 2),
      arg_eta = 1 / 2, arg_lambda = 1 / 2, arg_initial_endowment = 0,
      arg_p_tradeoff = 1 / 2\<rparr>"

section \<open>Properties\<close>

lemma unit_float_range: "0 \<le> unit_float r \<and> unit_float r < 1"
  by (simp add: unit_float_def)

lemma rn_randint_ok:
  assumes "a \<le> b"
  shows "\<exists>n. rn_randint a b t = Inr (n, stl t) \<and> a \<le> n \<and> n \<le> b"
proof -
  have "0 < nat (b - a + 1)" using assms by simp
  then have "shd t mod nat (b - a + 1) < nat (b - a + 1)" by (rule mod_less_divisor)
  then have "int (shd t mod nat (b - a + 1)) < b - a + 1" by linarith
  then show ?thesis using assms by (simp add: rn_randint_def)
qed

lemma ld_Nil2: "ld xs [] = length xs"
  by (cases xs) auto

lemma ld_sym: "ld xs ys = ld ys xs"
  by (induction xs ys rule: ld.induct) (auto simp: ld_Nil2 min.commute min.left_commute)

lemma ld_refl: "ld xs xs = 0"
  by (induction xs) auto

lemma ld_le_max: "ld xs ys \<le> max (length xs) (length ys)"
  by (induction xs ys rule: ld.induct) (auto simp: le_max_iff_disj min_le_iff_disj)

lemma edits_insert_all: "edits (length ys) [] ys"
  by (induction ys) (auto intro: edits.intros)

lemma edits_delete_all: "edits (length xs) xs []"
  by (induction xs) (auto intro: edits.intros)

lemma edits_ld: "edits (ld xs ys) xs ys"
proof (induction xs ys rule: ld.induct)
  case (1 ys)
  show ?case using edits_insert_all[of ys] by simp
next
  case (2 x xs)
  show ?case using edits_delete_all[of "x # xs"] by simp
next
  case (3 x xs y ys)
  let ?d = "Suc (ld xs (y # ys))" and ?i = "Suc (ld (x # xs) ys)"
  let ?s = "(if x = y then 0 else 1) + ld xs ys"
  have d: "edits ?d (x # xs) (y # ys)" using 3(1) by (rule edits.deletion)
  have i: "edits ?i (x # xs) (y # ys)" using 3(2) by (rule edits.insertion)
  have s: "edits ?s (x # xs) (y # ys)"
    using 3(3) by (auto intro: edits.keep edits.substitute)
  have "ld (x # xs) (y # ys) = ?d \<or> ld (x # xs) (y # ys) = ?i \<or> ld (x # xs) (y # ys) = ?s"
    by (simp add: min_def)
  then show ?case using d i s by metis
qed

lemma ld_insert_le: "ld xs (y # ys) \<le> Suc (ld xs ys)"
  by (cases xs) (simp_all add: min_le_iff_disj)

lemma ld_delete_le: "ld (x # xs) ys \<le> Suc (ld xs ys)"
  by (cases ys) (simp_all add: min_le_iff_disj ld_Nil2)

lemma ld_least: "edits n xs ys \<Longrightarrow> ld xs ys \<le> n"
proof (induction rule: edits.induct)
  case finish
  show ?case by simp
next
  case (keep n xs ys x)
  then show ?case by (simp add: min_le_iff_disj)
next
  case (substitute n xs ys x y)
  then show ?case by (simp add: min_le_iff_disj)
next
  case (insertion n xs ys y)
  then show ?case using ld_insert_le[of xs y ys] by linarith
next
  case (deletion n xs ys x)
  then show ?case using ld_delete_le[of x xs ys] by linarith
qed

lemma flip_ok:
  assumes "str \<noteq> []"
  shows "\<exists>new. flip str t = Inr (new, stl t) \<and> length new = length str"
proof -
  from assms have "0 \<le> int (length str) - 1" by (cases str) auto
  from rn_randint_ok[OF this, of t] obtain n where
    n: "rn_randint 0 (int (length str) - 1) t = Inr (n, stl t)" "0 \<le> n" "n \<le> int (length str) - 1"
    by blast
  then show ?thesis by (auto simp: flip_def)
qed

lemma insert_bit_ok:
  "\<exists>new. insert_bit str t = Inr (new, stl (stl t)) \<and> length new = length str + 1"
proof -
  have "(0::int) \<le> int (length str)" by simp
  from rn_randint_ok[OF this, of t] obtain n where
    n: "rn_randint 0 (int (length str)) t = Inr (n, stl t)" "0 \<le> n" "n \<le> int (length str)"
    by blast
  then show ?thesis by (auto simp: insert_bit_def rn_random_def)
qed

lemma delete_ok:
  assumes "str \<noteq> []"
  shows "\<exists>new. delete str t = Inr (new, stl t) \<and> length new = length str - 1"
proof -
  from assms have "0 \<le> int (length str) - 1" by (cases str) auto
  from rn_randint_ok[OF this, of t] obtain n where
    n: "rn_randint 0 (int (length str) - 1) t = Inr (n, stl t)" "0 \<le> n" "n \<le> int (length str) - 1"
    by blast
  then show ?thesis by (auto simp: delete_def)
qed

lemma edit_candidate_same:
  assumes "length s = 1" and "2 / 3 \<le> fst (rn_random t)"
  shows "edit_candidate s t = Inr (s, stl t)"
  using assms by (simp add: edit_candidate_def rn_random_def)


text \<open>
  Claim C8, as the code has it.  For every non-empty bit-string \<open>s\<close> and every state of
  the generator, \<open>flip\<close> returns a string of the same length, \<open>insert\<close> one that is one
  symbol longer, and \<open>delete\<close> one that is one symbol shorter, also when \<open>s\<close> has length
  one: none of them raises.  The no-op on a string of length one is the contraction branch
  of \<open>string_edit\<close>, which then proposes \<open>s\<close> itself and does not call \<open>delete\<close>.
\<close>

theorem string_ops_lengths:
  assumes "s \<noteq> []"
  shows "(\<exists>new. flip s t = Inr (new, stl t) \<and> length new = length s)
       \<and> (\<exists>new. insert_bit s t = Inr (new, stl (stl t)) \<and> length new = length s + 1)
       \<and> (\<exists>new. delete s t = Inr (new, stl t) \<and> length new = length s - 1)
       \<and> (length s = 1 \<and> 2 / 3 \<le> fst (rn_random t) \<longrightarrow> edit_candidate s t = Inr (s, stl t))"
  using flip_ok[OF assms] insert_bit_ok delete_ok[OF assms] edit_candidate_same
  by blast

text \<open>
  The four operations on the string \<open>0\<close>.
\<close>

theorem string_ops_lengths_witness:
  "flip ''0'' (sconst 0) = Inr (''1'', sconst 0)
   \<and> insert_bit ''0'' (sconst 0) = Inr (''00'', sconst 0)
   \<and> delete ''0'' (sconst 0) = Inr ([], sconst 0)
   \<and> edit_candidate ''0'' (sconst (2 ^ 53 - 1)) = Inr (''0'', sconst (2 ^ 53 - 1))"
proof -
  have h: "''0'' \<noteq> []" by simp
  have u: "2 / 3 \<le> fst (rn_random (sconst (2 ^ 53 - 1)))"
    by (simp add: rn_random_def unit_float_def)
  from string_ops_lengths[OF h, of "sconst 0"] string_ops_lengths[OF h, of "sconst (2 ^ 53 - 1)"] u
  show ?thesis
    by (simp add: flip_def insert_bit_def delete_def rn_randint_def rn_random_def unit_float_def)
qed

text \<open>
  Claim C8 as stated says that \<open>delete\<close> returns a string of length one unchanged.  On the
  string \<open>0\<close> it returns the empty string.
\<close>

theorem delete_single_counterexample:
  "length ''0'' = 1 \<and> delete ''0'' (sconst 0) = Inr ([], sconst 0) \<and> [] \<noteq> ''0''"
  by (simp add: delete_def rn_randint_def)

text \<open>
  Claim C9.  For all non-empty bit-strings \<open>a\<close> and \<open>b\<close>, \<open>evaluate a b\<close> is one minus the
  Levenshtein distance of \<open>a\<close> and \<open>b\<close> divided by the larger of the two lengths; it is
  symmetric, it is \<open>1\<close> on equal strings, and it lies between \<open>0\<close> and \<open>1\<close>.  The
  distance \<open>ld a b\<close> is the least number of single-symbol edits that turn \<open>a\<close> into
  \<open>b\<close>.
\<close>

theorem evaluate_similarity:
  assumes "a \<noteq> []" and "b \<noteq> []"
  shows "evaluate a b = Inr (1 - real (ld a b) / real (max (length a) (length b)))
       \<and> evaluate a b = evaluate b a
       \<and> evaluate a a = Inr 1
       \<and> (\<exists>v. evaluate a b = Inr v \<and> 0 \<le> v \<and> v \<le> 1)
       \<and> edits (ld a b) a b \<and> (\<forall>n. edits n a b \<longrightarrow> ld a b \<le> n)"
proof -
  have m: "0 < max (length a) (length b)" using assms by (simp add: less_max_iff_disj)
  have "real (ld a b) \<le> real (max (length a) (length b))"
    using ld_le_max[of a b] by (simp only: of_nat_le_iff)
  then have r: "real (ld a b) / real (max (length a) (length b)) \<le> 1"
    using m by (simp add: divide_le_eq_1)
  have s: "evaluate a b = evaluate b a"
    by (simp add: evaluate_def ld_sym[of a b] max.commute)
  have e: "evaluate a b = Inr (1 - real (ld a b) / real (max (length a) (length b)))
       \<and> evaluate a a = Inr 1
       \<and> (\<exists>v. evaluate a b = Inr v \<and> 0 \<le> v \<and> v \<le> 1)"
    using assms r by (simp add: evaluate_def ld_refl)
  show ?thesis using e s edits_ld[of a b] ld_least[of _ a b] by blast
qed

text \<open>
  The similarity of \<open>01\<close> and \<open>0\<close> is one half, in either order, and one edit turns
  the first into the second.
\<close>

theorem evaluate_similarity_witness:
  "evaluate ''01'' ''0'' = Inr (1 / 2) \<and> evaluate ''0'' ''01'' = Inr (1 / 2)
   \<and> evaluate ''01'' ''01'' = Inr 1 \<and> edits 1 ''01'' ''0''"
proof -
  have h1: "''01'' \<noteq> []" and h2: "''0'' \<noteq> []" by simp_all
  have d: "ld ''01'' ''0'' = 1" by simp
  from evaluate_similarity[OF h1 h2] show ?thesis unfolding d by (simp add: evaluate_def)
qed

text \<open>
  Claim C4.  For a society that is not depleted, with a store \<open>\<ge> 0\<close>, and every net flow:
  if the net flow is at least \<open>1\<close> the store is unchanged, the flow is what is available
  and the society is not depleted.  Otherwise the deficit is \<open>1\<close> for a net flow in
  \<open>[0, 1)\<close> and its absolute value for a negative one; a store that covers the deficit is
  reduced by it, \<open>1.0\<close> is available and the society is not depleted; a store that does
  not is set to \<open>0\<close>, the society is depleted and what was in the store is available.  The
  strings and the endowment are never touched.
\<close>

theorem update_resource_store_cases:
  assumes "0 \<le> resource_store s" and "\<not> is_depleted s"
    and "deficit = (if 0 \<le> net then 1 else \<bar>net\<bar>)"
    and "update_resource_store s net = (available, s')"
  shows "(1 \<le> net \<longrightarrow>
            resource_store s' = resource_store s \<and> available = net \<and> \<not> is_depleted s')
       \<and> (net < 1 \<and> deficit \<le> resource_store s \<longrightarrow>
            resource_store s' = resource_store s - deficit \<and> available = 1 \<and> \<not> is_depleted s')
       \<and> (net < 1 \<and> resource_store s < deficit \<longrightarrow>
            is_depleted s' \<and> resource_store s' = 0 \<and> available = resource_store s)
       \<and> space s' = space s \<and> technologies s' = technologies s
       \<and> initial_endowment s' = initial_endowment s"
  using assms by (auto simp: update_resource_store_def Let_def split: if_splits)


text \<open>
  A store of \<open>5\<close> and a net flow of \<open>-2\<close>: the store drops to \<open>3\<close>.
\<close>

theorem update_resource_store_cases_witness:
  "update_resource_store
     \<lparr>space = ''0'', technologies = ''1'', resource_store = 5, initial_endowment = 5,
      is_depleted = False\<rparr> (- 2)
   = (1, \<lparr>space = ''0'', technologies = ''1'', resource_store = 3, initial_endowment = 5,
          is_depleted = False\<rparr>)
   \<and> \<not> (1 \<le> (- 2 :: real)) \<and> (2 :: real) \<le> 5"
proof -
  have a: "0 \<le> resource_store \<lparr>space = ''0'', technologies = ''1'', resource_store = 5,
      initial_endowment = 5, is_depleted = False\<rparr>" by simp
  have b: "\<not> is_depleted \<lparr>space = ''0'', technologies = ''1'', resource_store = 5,
      initial_endowment = 5, is_depleted = False\<rparr>" by simp
  have c: "(2 :: real) = (if 0 \<le> (- 2 :: real) then 1 else \<bar>- 2\<bar>)" by simp
  have d: "update_resource_store \<lparr>space = ''0'', technologies = ''1'', resource_store = 5,
      initial_endowment = 5, is_depleted = False\<rparr> (- 2)
    = (1, \<lparr>space = ''0'', technologies = ''1'', resource_store = 3, initial_endowment = 5,
          is_depleted = False\<rparr>)"
    by (simp add: update_resource_store_def)
  from update_resource_store_cases[OF a b c d] d show ?thesis by simp
qed

lemma evaluate_ok:
  assumes "a \<noteq> []"
  shows "\<exists>v. evaluate a b = Inr v" and "\<exists>v. evaluate b a = Inr v"
  using assms by (simp_all add: evaluate_def)

lemma edit_candidate_ok:
  assumes "s \<noteq> []"
  shows "\<exists>new t'. edit_candidate s t = Inr (new, t') \<and> new \<noteq> []"
proof -
  obtain p t1 where p: "rn_random t = (p, t1)" by (cases "rn_random t")
  from flip_ok[OF assms, of t1] obtain f where
    f: "flip s t1 = Inr (f, stl t1)" "length f = length s" by blast
  from insert_bit_ok[of s t1] obtain i where
    i: "insert_bit s t1 = Inr (i, stl (stl t1))" "length i = length s + 1" by blast
  from delete_ok[OF assms, of t1] obtain d where
    d: "delete s t1 = Inr (d, stl t1)" "length d = length s - 1" by blast
  from f assms have fn: "f \<noteq> []" by auto
  from i have "i \<noteq> []" by auto
  moreover have "1 < length s \<Longrightarrow> d \<noteq> []" using d by auto
  ultimately show ?thesis using p f(1) fn i(1) d(1) assms
    by (auto simp: edit_candidate_def)
qed

text \<open>
  Claim C5.  For every non-empty string \<open>s\<close>, every reference string and every acceptance
  probability, \<open>string_edit\<close> produces a candidate and draws a second uniform value.  If
  that draw is below the acceptance probability, the candidate is returned exactly when its
  similarity to the reference is strictly greater than that of \<open>s\<close>, and \<open>s\<close> otherwise;
  if the draw is not below it, the candidate is returned whatever its similarity.
\<close>

theorem string_edit_acceptance:
  assumes "s \<noteq> []"
  shows "\<exists>new t' e_new e_old.
           edit_candidate s t = Inr (new, t')
         \<and> evaluate new reference = Inr e_new
         \<and> evaluate s reference = Inr e_old
         \<and> string_edit s reference acceptance_prob t =
             Inr (if fst (rn_random t') < acceptance_prob
                  then (if e_old < e_new then new else s)
                  else new, snd (rn_random t'))"
proof -
  from edit_candidate_ok[OF assms, of t] obtain new t' where
    c: "edit_candidate s t = Inr (new, t')" "new \<noteq> []" by blast
  from evaluate_ok(1)[OF c(2), of reference] obtain e_new where
    en: "evaluate new reference = Inr e_new" by blast
  from evaluate_ok(1)[OF assms, of reference] obtain e_old where
    eo: "evaluate s reference = Inr e_old" by blast
  have "string_edit s reference acceptance_prob t =
          Inr (if fst (rn_random t') < acceptance_prob
               then (if e_old < e_new then new else s)
               else new, snd (rn_random t'))"
    using c(1) en eo by (auto simp: string_edit_def split: prod.splits)
  with c(1) en eo show ?thesis by blast
qed

text \<open>
  The candidate \<open>1\<close> for the string \<open>0\<close>: kept under selection against the reference
  \<open>1\<close>, dropped under selection against the reference \<open>0\<close>, kept without selection.
\<close>

theorem string_edit_acceptance_witness:
  "string_edit ''0'' ''1'' 1 (sconst 0) = Inr (''1'', sconst 0)
   \<and> string_edit ''0'' ''0'' 1 (sconst 0) = Inr (''0'', sconst 0)
   \<and> string_edit ''0'' ''0'' 0 (sconst 0) = Inr (''1'', sconst 0)"
proof -
  have h: "''0'' \<noteq> []" by simp
  have c: "edit_candidate ''0'' (sconst 0) = Inr (''1'', sconst 0)"
    by (simp add: edit_candidate_def rn_random_def unit_float_def flip_def rn_randint_def)
  have r: "rn_random (sconst 0) = (0, sconst 0)"
    by (simp add: rn_random_def unit_float_def)
  from string_edit_acceptance[OF h, of "sconst 0" "''1''" 1]
       string_edit_acceptance[OF h, of "sconst 0" "''0''" 1]
       string_edit_acceptance[OF h, of "sconst 0" "''0''" 0]
  show ?thesis by (simp add: c r evaluate_def)
qed

lemma string_generator_ok:
  assumes "0 \<le> l"
  shows "\<exists>s. string_generator p l t = Inr (s, sdrop (nat l) t) \<and> length s = nat l
             \<and> set s \<subseteq> {CHR ''0'', CHR ''1''}"
proof -
  have "\<And>r::nat. [CHR ''0'', CHR ''1''] ! (r mod Suc (Suc 0)) \<in> {CHR ''0'', CHR ''1''}"
  proof -
    fix r :: nat
    have "r mod Suc (Suc 0) = 0 \<or> r mod Suc (Suc 0) = 1" by presburger
    then show "[CHR ''0'', CHR ''1''] ! (r mod Suc (Suc 0)) \<in> {CHR ''0'', CHR ''1''}" by auto
  qed
  then show ?thesis using assms
    by (auto simp: string_generator_def np_choice_def)
qed

lemma string_generator_neg:
  assumes "l < 0"
  shows "string_generator p l t = Inl ValueError"
  using assms by (simp add: string_generator_def np_choice_def)

lemma string_generator_any_p: "string_generator p l t = string_generator q l t"
  by (simp add: string_generator_def)

lemma Society_init_ok:
  assumes "0 \<le> slen" and "0 \<le> tlen"
  shows "\<exists>s np'. Society_init slen sp tlen tp e np = Inr (s, np')
           \<and> length (space s) = nat slen \<and> length (technologies s) = nat tlen
           \<and> resource_store s = e \<and> initial_endowment s = e \<and> \<not> is_depleted s"
proof -
  obtain s_p np1 where a: "(case sp of None \<Rightarrow> np_uniform 0 1 np | Some p \<Rightarrow> (p, np)) = (s_p, np1)"
    by (cases "(case sp of None \<Rightarrow> np_uniform 0 1 np | Some p \<Rightarrow> (p, np))")
  obtain t_p np2 where b: "(case tp of None \<Rightarrow> np_uniform 0 1 np1 | Some p \<Rightarrow> (p, np1)) = (t_p, np2)"
    by (cases "(case tp of None \<Rightarrow> np_uniform 0 1 np1 | Some p \<Rightarrow> (p, np1))")
  from string_generator_ok[OF assms(1), of s_p np2] obtain x where
    x: "string_generator s_p slen np2 = Inr (x, sdrop (nat slen) np2)" "length x = nat slen" by blast
  from string_generator_ok[OF assms(2), of t_p "sdrop (nat slen) np2"] obtain y where
    y: "string_generator t_p tlen (sdrop (nat slen) np2) = Inr (y, sdrop (nat tlen) (sdrop (nat slen) np2))"
       "length y = nat tlen" by blast
  show ?thesis using a b x y by (simp add: Society_init_def)
qed

lemma Society_init_neg:
  assumes "slen < 0 \<or> tlen < 0"
  shows "Society_init slen sp tlen tp e np = Inl ValueError"
proof -
  obtain s_p np1 where a: "(case sp of None \<Rightarrow> np_uniform 0 1 np | Some p \<Rightarrow> (p, np)) = (s_p, np1)"
    by (cases "(case sp of None \<Rightarrow> np_uniform 0 1 np | Some p \<Rightarrow> (p, np))")
  obtain t_p np2 where b: "(case tp of None \<Rightarrow> np_uniform 0 1 np1 | Some p \<Rightarrow> (p, np1)) = (t_p, np2)"
    by (cases "(case tp of None \<Rightarrow> np_uniform 0 1 np1 | Some p \<Rightarrow> (p, np1))")
  show ?thesis
  proof (cases "slen < 0")
    case True
    then show ?thesis using a b by (simp add: Society_init_def string_generator_neg)
  next
    case False
    then have "0 \<le> slen" and "tlen < 0" using assms by auto
    from string_generator_ok[OF this(1), of s_p np2] obtain x where
      x: "string_generator s_p slen np2 = Inr (x, sdrop (nat slen) np2)" by blast
    show ?thesis using a b x \<open>tlen < 0\<close> by (simp add: Society_init_def string_generator_neg)
  qed
qed

lemma tradeoff_ok:
  assumes "0 \<le> p" and "p \<le> 1" and "0 \<le> n"
  shows "tradeoff n p np = Inr (map (\<lambda>r. unit_float r < p) (stake (nat n) np), sdrop (nat n) np)"
proof -
  have "\<And>r. [True, False] ! searchsorted_right (cumsum 0 [p, 1 - p]) (unit_float r)
            = (unit_float r < p)"
    using unit_float_range by (auto simp: searchsorted_right_def not_le dest: less_le_trans)
  then show ?thesis using assms by (simp add: tradeoff_def np_choice_def)
qed

lemma tradeoff_invalid:
  assumes "p < 0 \<or> 1 < p"
  shows "tradeoff n p np = Inl ValueError"
  using assms by (auto simp: tradeoff_def np_choice_def)

lemma py_round_ge_1:
  assumes "1 \<le> x"
  shows "1 \<le> py_round x"
proof -
  have "1 \<le> \<lfloor>x\<rfloor>" using assms by linarith
  then show ?thesis by (simp add: py_round_def)
qed

lemma string_edit_ok:
  assumes "s \<noteq> []"
  shows "\<exists>new t'. string_edit s r eff t = Inr (new, t') \<and> new \<noteq> []"
proof -
  from edit_candidate_ok[OF assms, of t] obtain new t' where
    c: "edit_candidate s t = Inr (new, t')" "new \<noteq> []" by blast
  from evaluate_ok(1)[OF c(2), of r] obtain e_new where
    en: "evaluate new r = Inr e_new" by blast
  from evaluate_ok(1)[OF assms, of r] obtain e_old where
    eo: "evaluate s r = Inr e_old" by blast
  show ?thesis using c en eo assms
    by (auto simp: string_edit_def split: prod.splits)
qed

lemma chained_append:
  "chained s cs s' \<Longrightarrow> chained s' ds s'' \<Longrightarrow> chained s (cs @ ds) s''"
  by (induction cs arbitrary: s) auto

lemma same_resources_refl: "same_resources s s"
  by (simp add: same_resources_def)

lemma edit_call_shift:
  "same_resources s s' \<Longrightarrow> edit_call s' c \<Longrightarrow> edit_call s c"
  by (simp add: edit_call_def same_resources_def)

lemma apply_choices_spec:
  assumes "nonempty s"
  shows "\<exists>s' rn' cs. apply_choices \<eta> lam choices s rn = Inr (s', rn', cs)
           \<and> nonempty s' \<and> same_resources s s' \<and> chained s cs s'
           \<and> (\<forall>c\<in>set cs. edit_call s c)"
  using assms
proof (induction choices arbitrary: s rn)
  case Nil
  then show ?case by (simp add: same_resources_refl)
next
  case (Cons choice choices)
  from Cons.prems have ne: "space s \<noteq> []" "technologies s \<noteq> []"
    by (simp_all add: nonempty_def)
  show ?case
  proof (cases choice)
    case True
    from string_edit_ok[OF ne(2), of "space s" \<eta> rn] obtain new rn1 where
      e: "string_edit (technologies s) (space s) \<eta> rn = Inr (new, rn1)" "new \<noteq> []" by blast
    let ?s1 = "s\<lparr>technologies := new\<rparr>"
    have n1: "nonempty ?s1" using ne e(2) by (simp add: nonempty_def)
    have sr: "same_resources s ?s1" by (simp add: same_resources_def)
    from Cons.IH[OF n1, of rn1] obtain s' rn' cs where
      ih: "apply_choices \<eta> lam choices ?s1 rn1 = Inr (s', rn', cs)" "nonempty s'"
          "same_resources ?s1 s'" "chained ?s1 cs s'" "\<forall>c\<in>set cs. edit_call ?s1 c"
      by blast
    have c0: "edit_call s \<lparr>call_op = Ce_technologies, before = s, after = ?s1\<rparr>"
      using Cons.prems n1 sr by (simp add: edit_call_def same_resources_refl)
    have "\<forall>c\<in>set cs. edit_call s c" using ih(5) sr edit_call_shift by blast
    moreover have "same_resources s s'" using ih(3) by (simp add: same_resources_def)
    ultimately show ?thesis using True e(1) ih(1,2,4) c0
      by (simp add: ce_technologies_def)
  next
    case False
    from string_edit_ok[OF ne(1), of "technologies s" lam rn] obtain new rn1 where
      e: "string_edit (space s) (technologies s) lam rn = Inr (new, rn1)" "new \<noteq> []" by blast
    let ?s1 = "s\<lparr>space := new\<rparr>"
    have n1: "nonempty ?s1" using ne e(2) by (simp add: nonempty_def)
    have sr: "same_resources s ?s1" by (simp add: same_resources_def)
    from Cons.IH[OF n1, of rn1] obtain s' rn' cs where
      ih: "apply_choices \<eta> lam choices ?s1 rn1 = Inr (s', rn', cs)" "nonempty s'"
          "same_resources ?s1 s'" "chained ?s1 cs s'" "\<forall>c\<in>set cs. edit_call ?s1 c"
      by blast
    have c0: "edit_call s \<lparr>call_op = Ce_space, before = s, after = ?s1\<rparr>"
      using Cons.prems n1 sr by (simp add: edit_call_def same_resources_refl)
    have "\<forall>c\<in>set cs. edit_call s c" using ih(5) sr edit_call_shift by blast
    moreover have "same_resources s s'" using ih(3) by (simp add: same_resources_def)
    ultimately show ?thesis using False e(1) ih(1,2,4) c0
      by (simp add: ce_space_def)
  qed
qed

lemma evolve_spec:
  assumes "nonempty s" and "0 \<le> arg_p_tradeoff a" and "arg_p_tradeoff a \<le> 1"
  shows "\<exists>s' np' rn' cs. evolve a av s np rn = Inr (s', np', rn', cs)
           \<and> nonempty s' \<and> same_resources s s' \<and> chained s cs s'
           \<and> (\<forall>c\<in>set cs. edit_call s c)"
proof -
  let ?it = "if 1 \<le> av then py_round av else 1"
  have pos: "0 < ?it" using py_round_ge_1[of av] by auto
  then have nn: "0 \<le> ?it" by linarith
  note t = tradeoff_ok[OF assms(2,3) nn, of np]
  from apply_choices_spec[OF assms(1), of "arg_eta a" "arg_lambda a"
      "map (\<lambda>r. unit_float r < arg_p_tradeoff a) (stake (nat ?it) np)" rn]
  obtain s' rn' cs where
    ac: "apply_choices (arg_eta a) (arg_lambda a)
           (map (\<lambda>r. unit_float r < arg_p_tradeoff a) (stake (nat ?it) np)) s rn
         = Inr (s', rn', cs)"
        "nonempty s'" "same_resources s s'" "chained s cs s'" "\<forall>c\<in>set cs. edit_call s c"
    by blast
  have c0: "edit_call s \<lparr>call_op = Tradeoff, before = s, after = s\<rparr>"
    using assms(1) by (simp add: edit_call_def same_resources_refl)
  have "evolve a av s np rn
        = Inr (s', sdrop (nat ?it) np, rn', \<lparr>call_op = Tradeoff, before = s, after = s\<rparr> # cs)"
    using pos t ac(1) by (simp add: evolve_def Let_def)
  then show ?thesis using ac(2-5) c0 by simp
qed

lemma update_resource_store_frame:
  assumes "update_resource_store s net = (av, s1)"
  shows "space s1 = space s" and "technologies s1 = technologies s"
    and "initial_endowment s1 = initial_endowment s"
    and "nonempty s1 = nonempty s"
    and "\<not> is_depleted s1 \<Longrightarrow> \<not> is_depleted s"
    and "(is_depleted s \<longrightarrow> resource_store s = 0) \<Longrightarrow> is_depleted s1 \<Longrightarrow> resource_store s1 = 0"
    and "is_depleted s \<Longrightarrow> resource_store s = 0 \<Longrightarrow> s1 = s"
  using assms
  by (auto simp: update_resource_store_def Let_def nonempty_def split: if_splits)

lemma generation_loop_Suc_cases:
  assumes "nonempty s" and "0 \<le> arg_p_tradeoff a" and "arg_p_tradeoff a \<le> 1"
  obtains
    (depleted) eff av s1 where
      "update_resource_store s
         (resource_function (length (space s)) eff (length (technologies s))) = (av, s1)"
      "is_depleted s1"
      "generation_loop a (Suc k) gen s np rn out =
         Inr \<lparr>outcome = Depleted gen, rows = out, final = s1,
              calls = [\<lparr>call_op = Update_resource_store, before = s, after = s1\<rparr>]\<rparr>"
  | (limit) eff av s1 s2 np' rn' cs e where
      "update_resource_store s
         (resource_function (length (space s)) eff (length (technologies s))) = (av, s1)"
      "\<not> is_depleted s1"
      "evolve a av s1 np rn = Inr (s2, np', rn', cs)"
      "nonempty s2" "same_resources s1 s2" "chained s1 cs s2" "\<forall>c\<in>set cs. edit_call s1 c"
      "arg_limit a \<le> int (length (technologies s2))"
      "generation_loop a (Suc k) gen s np rn out =
         Inr \<lparr>outcome = Complexity_limit gen,
              rows = out @ [output_row a gen s2 e av], final = s2,
              calls = \<lparr>call_op = Update_resource_store, before = s, after = s1\<rparr> # cs\<rparr>"
  | (continue) eff av s1 s2 np' rn' cs e where
      "update_resource_store s
         (resource_function (length (space s)) eff (length (technologies s))) = (av, s1)"
      "\<not> is_depleted s1"
      "evolve a av s1 np rn = Inr (s2, np', rn', cs)"
      "nonempty s2" "same_resources s1 s2" "chained s1 cs s2" "\<forall>c\<in>set cs. edit_call s1 c"
      "\<not> arg_limit a \<le> int (length (technologies s2))"
      "generation_loop a (Suc k) gen s np rn out =
         (case generation_loop a k (gen + 1) s2 np' rn' (out @ [output_row a gen s2 e av]) of
            Inl x \<Rightarrow> Inl x
          | Inr r \<Rightarrow>
              Inr (r\<lparr>calls := \<lparr>call_op = Update_resource_store, before = s, after = s1\<rparr>
                                # cs @ calls r\<rparr>))"
proof -
  from assms(1) have ne: "space s \<noteq> []" by (simp add: nonempty_def)
  from evaluate_ok(1)[OF ne, of "technologies s"] obtain eff where
    eff: "evaluate (space s) (technologies s) = Inr eff" by blast
  obtain av s1 where
    u: "update_resource_store s
          (resource_function (length (space s)) eff (length (technologies s))) = (av, s1)"
    by (cases "update_resource_store s
          (resource_function (length (space s)) eff (length (technologies s)))")
  show thesis
  proof (cases "is_depleted s1")
    case True
    show thesis by (rule depleted[OF u True]) (simp add: eff u True)
  next
    case False
    have n1: "nonempty s1" using update_resource_store_frame(4)[OF u] assms(1) by simp
    from evolve_spec[OF n1 assms(2,3), of av np rn] obtain s2 np' rn' cs where
      ev: "evolve a av s1 np rn = Inr (s2, np', rn', cs)" "nonempty s2" "same_resources s1 s2"
          "chained s1 cs s2" "\<forall>c\<in>set cs. edit_call s1 c" by blast
    from ev(2) have "technologies s2 \<noteq> []" by (simp add: nonempty_def)
    from evaluate_ok(1)[OF this, of "space s2"] obtain e where
      e: "evaluate (technologies s2) (space s2) = Inr e" by blast
    show thesis
    proof (cases "arg_limit a \<le> int (length (technologies s2))")
      case True
      show thesis
        by (rule limit[OF u False ev True]) (simp add: eff u False ev(1) e True)
    next
      case lim: False
      show thesis
        by (rule continue[OF u False ev lim]) (simp add: eff u False ev(1) e lim)
    qed
  qed
qed

lemma map_upt_shift:
  "map (\<lambda>i. g + int i) [0..<Suc n] = g # map (\<lambda>i. (g + 1) + int i) [0..<n]"
proof -
  have "[0..<Suc n] = 0 # map Suc [0..<n]" by (simp add: upt_conv_Cons map_Suc_upt del: upt_Suc)
  then show ?thesis by (simp add: comp_def del: upt_Suc)
qed

lemma rows_ok_Cons:
  assumes "rows_ok a k (gen + 1) r new" and "col_generation x = gen"
    and "1 \<le> col_tech_complexity x" and "1 \<le> col_space_complexity x"
    and "int (col_tech_complexity x) < arg_limit a"
    and "outcome r' = outcome r" and "final r' = final r"
  shows "rows_ok a (Suc k) gen r' (x # new)"
proof -
  have m: "map col_generation (x # new) = map (\<lambda>i. gen + int i) [0..<length (x # new)]"
    using assms(1,2) map_upt_shift[of gen "length new"] by (simp add: rows_ok_def del: upt_Suc)
  show ?thesis
  proof (cases "outcome r")
    case (Depleted g)
    then show ?thesis using assms m unfolding rows_ok_def by (simp del: upt_Suc)
  next
    case (Complexity_limit g)
    then show ?thesis using assms m unfolding rows_ok_def by (simp del: upt_Suc)
  next
    case Complete
    then show ?thesis using assms m unfolding rows_ok_def by (simp del: upt_Suc)
  qed
qed

lemma generation_loop_rows:
  assumes "0 \<le> arg_p_tradeoff a" and "arg_p_tradeoff a \<le> 1" and "nonempty s"
  shows "\<exists>r new. generation_loop a k gen s np rn out = Inr r \<and> rows r = out @ new
            \<and> rows_ok a k gen r new"
  using assms(3)
proof (induction k arbitrary: s gen np rn out)
  case 0
  show ?case by (simp add: rows_ok_def)
next
  case (Suc k)
  from Suc.prems assms(1,2) show ?case
  proof (cases rule: generation_loop_Suc_cases[where k = k and gen = gen and np = np and rn = rn and out = out])
    case (depleted eff av s1)
    then show ?thesis by (simp add: rows_ok_def)
  next
    case (limit eff av s1 s2 np' rn' cs e)
    from limit(4) have "1 \<le> length (technologies s2)" "1 \<le> length (space s2)"
      by (simp_all add: nonempty_def Suc_le_eq)
    then have "rows_ok a (Suc k) gen
        \<lparr>outcome = Complexity_limit gen, rows = out @ [output_row a gen s2 e av], final = s2,
         calls = \<lparr>call_op = Update_resource_store, before = s, after = s1\<rparr> # cs\<rparr>
        [output_row a gen s2 e av]"
      using limit(8) by (simp add: rows_ok_def output_row_def)
    then show ?thesis using limit(9) by simp
  next
    case (continue eff av s1 s2 np' rn' cs e)
    from Suc.IH[OF continue(4), of "gen + 1" np' rn' "out @ [output_row a gen s2 e av]"]
    obtain r new where
      ih: "generation_loop a k (gen + 1) s2 np' rn' (out @ [output_row a gen s2 e av]) = Inr r"
          "rows r = (out @ [output_row a gen s2 e av]) @ new" "rows_ok a k (gen + 1) r new"
      by blast
    let ?r = "r\<lparr>calls := \<lparr>call_op = Update_resource_store, before = s, after = s1\<rparr>
                            # cs @ calls r\<rparr>"
    from continue(4) have ne: "1 \<le> length (technologies s2)" "1 \<le> length (space s2)"
      by (simp_all add: nonempty_def Suc_le_eq)
    have "rows_ok a (Suc k) gen ?r (output_row a gen s2 e av # new)"
      by (rule rows_ok_Cons[OF ih(3)]) (use ne continue(8) in \<open>simp_all add: output_row_def\<close>)
    moreover have "generation_loop a (Suc k) gen s np rn out = Inr ?r"
      using continue(9) ih(1) by simp
    moreover have "rows ?r = out @ (output_row a gen s2 e av # new)" using ih(2) by simp
    ultimately show ?thesis by blast
  qed
qed

lemma edit_call_active:
  assumes "edit_call s1 c" and "\<not> is_depleted s1"
  shows "nonempty (before c)" and "nonempty (after c)"
    and "\<not> is_depleted (before c)" and "\<not> is_depleted (after c)"
  using assms by (simp_all add: edit_call_def same_resources_def)

lemma generation_loop_calls:
  assumes "0 \<le> arg_p_tradeoff a" and "arg_p_tradeoff a \<le> 1"
    and "nonempty s" and "is_depleted s \<longrightarrow> resource_store s = 0"
    and "generation_loop a k gen s np rn out = Inr r"
  shows "calls_ok s r"
  using assms(3-5)
proof (induction k arbitrary: s gen np rn out r)
  case 0
  then show ?case by (auto simp: calls_ok_def)
next
  case (Suc k)
  from Suc.prems(1) assms(1,2) show ?case
  proof (cases rule: generation_loop_Suc_cases[where k = k and gen = gen and np = np and rn = rn and out = out])
    case (depleted eff av s1)
    note f = update_resource_store_frame[OF depleted(1)]
    have r: "r = \<lparr>outcome = Depleted gen, rows = out, final = s1,
              calls = [\<lparr>call_op = Update_resource_store, before = s, after = s1\<rparr>]\<rparr>"
      using depleted(3) Suc.prems(3) by simp
    have a1: "nonempty s1" using f(4) Suc.prems(1) by simp
    have a2: "resource_store s1 = 0" using f(6)[OF Suc.prems(2) depleted(2)] .
    have a3: "is_depleted s \<Longrightarrow> s1 = s" using f(7) Suc.prems(2) by blast
    show ?thesis unfolding calls_ok_def r using a1 a2 a3 Suc.prems(1) by auto
  next
    case (limit eff av s1 s2 np' rn' cs e)
    note f = update_resource_store_frame[OF limit(1)]
    have r: "r = \<lparr>outcome = Complexity_limit gen,
              rows = out @ [output_row a gen s2 e av], final = s2,
              calls = \<lparr>call_op = Update_resource_store, before = s, after = s1\<rparr> # cs\<rparr>"
      using limit(9) Suc.prems(3) by simp
    have a1: "nonempty s1" using f(4) Suc.prems(1) by simp
    have a2: "\<not> is_depleted s" using f(5)[OF limit(2)] .
    have a3: "\<not> is_depleted s2" using limit(5,2) by (simp add: same_resources_def)
    have a4: "\<forall>c\<in>set cs. nonempty (before c) \<and> nonempty (after c)
                \<and> \<not> is_depleted (before c) \<and> \<not> is_depleted (after c)"
      using limit(7) edit_call_active[OF _ limit(2)] by blast
    show ?thesis unfolding calls_ok_def r
      using a1 a2 a3 a4 Suc.prems(1) limit(2,4,6) by auto
  next
    case (continue eff av s1 s2 np' rn' cs e)
    note f = update_resource_store_frame[OF continue(1)]
    obtain r' where
      r': "generation_loop a k (gen + 1) s2 np' rn' (out @ [output_row a gen s2 e av]) = Inr r'"
      and r: "r = r'\<lparr>calls := \<lparr>call_op = Update_resource_store, before = s, after = s1\<rparr>
                              # cs @ calls r'\<rparr>"
      using continue(9) Suc.prems(3) by (auto split: sum.splits)
    have a1: "nonempty s1" using f(4) Suc.prems(1) by simp
    have a2: "\<not> is_depleted s" using f(5)[OF continue(2)] .
    have a3: "\<not> is_depleted s2" using continue(5,2) by (simp add: same_resources_def)
    have a4: "\<forall>c\<in>set cs. nonempty (before c) \<and> nonempty (after c)
                \<and> \<not> is_depleted (before c) \<and> \<not> is_depleted (after c)"
      using continue(7) edit_call_active[OF _ continue(2)] by blast
    have ih: "calls_ok s2 r'" using Suc.IH[OF continue(4) _ r'] a3 by simp
    have ch: "chained s1 (cs @ calls r') (final r')"
      using chained_append[OF continue(6)] ih by (simp add: calls_ok_def)
    show ?thesis unfolding calls_ok_def r
      using a1 a2 a3 a4 Suc.prems(1) continue(2) ih ch
      by (auto simp: calls_ok_def)
  qed
qed

lemma simulation_run_start:
  assumes "0 \<le> arg_seed a" and "arg_seed a < 2 ^ 32"
    and "0 \<le> arg_s_length a" and "0 \<le> arg_t_length a"
    and "0 < arg_s_length a \<or> 0 < arg_t_length a"
  obtains s np effectiveness eff av s1 where
    "length (space s) = nat (arg_s_length a)"
    "length (technologies s) = nat (arg_t_length a)"
    "resource_store s = arg_initial_endowment a"
    "\<not> is_depleted s"
    "update_resource_store s
       (resource_function (length (space s)) eff (length (technologies s))) = (av, s1)"
    "simulation_run G g a =
       (case generation_loop a (nat (arg_generations a - 1)) 1 s1 np (rn_seed G (arg_seed a))
               [output_row a 0 s1 effectiveness av] of
          Inl x \<Rightarrow> Inl x
        | Inr r \<Rightarrow>
            Inr (r\<lparr>calls := \<lparr>call_op = Update_resource_store, before = s, after = s1\<rparr>
                              # calls r\<rparr>))"
proof -
  have sd: "seed_all G (arg_seed a) g
            = Inr (g\<lparr>np_state := np_seed G (arg_seed a), rn_state := rn_seed G (arg_seed a)\<rparr>)"
    using assms(1,2) by (simp add: seed_all_def)
  from Society_init_ok[OF assms(3,4), of "arg_s_prob a" "arg_t_prob a" "arg_initial_endowment a"
      "np_seed G (arg_seed a)"]
  obtain s np where
    i: "Society_init (arg_s_length a) (arg_s_prob a) (arg_t_length a) (arg_t_prob a)
          (arg_initial_endowment a) (np_seed G (arg_seed a)) = Inr (s, np)"
       "length (space s) = nat (arg_s_length a)" "length (technologies s) = nat (arg_t_length a)"
       "resource_store s = arg_initial_endowment a" "\<not> is_depleted s"
    by blast
  have m: "max (length (technologies s)) (length (space s)) \<noteq> 0"
          "max (length (space s)) (length (technologies s)) \<noteq> 0"
    using i(2,3) assms(5) by auto
  obtain effectiveness where e1: "evaluate (technologies s) (space s) = Inr effectiveness"
    using m by (simp add: evaluate_def)
  obtain eff where e2: "evaluate (space s) (technologies s) = Inr eff"
    using m by (simp add: evaluate_def)
  obtain av s1 where
    u: "update_resource_store s
          (resource_function (length (space s)) eff (length (technologies s))) = (av, s1)"
    by (cases "update_resource_store s
          (resource_function (length (space s)) eff (length (technologies s)))")
  show thesis
    by (rule that[OF i(2-5) u]) (simp add: simulation_run_def sd i(1) e1 e2 u)
qed

lemma simulation_run_negative_length:
  assumes "arg_s_length a < 0 \<or> arg_t_length a < 0"
  shows "simulation_run G g a = Inl ValueError"
proof (cases "seed_all G (arg_seed a) g")
  case (Inl e)
  then have "e = ValueError" by (auto simp: seed_all_def split: if_splits)
  with Inl show ?thesis by (simp add: simulation_run_def)
next
  case (Inr g0)
  then show ?thesis using Society_init_neg[OF assms]
    by (simp add: simulation_run_def)
qed

lemma simulation_run_valid:
  assumes "0 \<le> arg_seed a" and "arg_seed a < 2 ^ 32"
    and "1 \<le> arg_s_length a" and "1 \<le> arg_t_length a"
    and "0 \<le> arg_p_tradeoff a" and "arg_p_tradeoff a \<le> 1"
  shows "\<exists>r s0 s1 row0 new.
           simulation_run G g a = Inr r
         \<and> rows r = row0 # new
         \<and> col_generation row0 = 0
         \<and> col_tech_complexity row0 = nat (arg_t_length a)
         \<and> col_space_complexity row0 = nat (arg_s_length a)
         \<and> rows_ok a (nat (arg_generations a - 1)) 1 r new
         \<and> calls r = \<lparr>call_op = Update_resource_store, before = s0, after = s1\<rparr> # tl (calls r)
         \<and> nonempty s0 \<and> \<not> is_depleted s0 \<and> resource_store s0 = arg_initial_endowment a
         \<and> length (space s0) = nat (arg_s_length a)
         \<and> length (technologies s0) = nat (arg_t_length a)
         \<and> nonempty s1 \<and> (is_depleted s1 \<longrightarrow> resource_store s1 = 0)
         \<and> calls_ok s1 (r\<lparr>calls := tl (calls r)\<rparr>)"
proof -
  have l: "0 \<le> arg_s_length a" "0 \<le> arg_t_length a" "0 < arg_s_length a \<or> 0 < arg_t_length a"
    using assms(3,4) by auto
  from assms(1,2) l show ?thesis
  proof (rule simulation_run_start[where G = G and g = g])
    fix s np effectiveness eff av s1
    assume s: "length (space s) = nat (arg_s_length a)"
        "length (technologies s) = nat (arg_t_length a)"
        "resource_store s = arg_initial_endowment a" "\<not> is_depleted s"
      and u: "update_resource_store s
           (resource_function (length (space s)) eff (length (technologies s))) = (av, s1)"
      and run: "simulation_run G g a =
         (case generation_loop a (nat (arg_generations a - 1)) 1 s1 np (rn_seed G (arg_seed a))
               [output_row a 0 s1 effectiveness av] of
          Inl x \<Rightarrow> Inl x
        | Inr r \<Rightarrow>
            Inr (r\<lparr>calls := \<lparr>call_op = Update_resource_store, before = s, after = s1\<rparr>
                              # calls r\<rparr>))"
    note f = update_resource_store_frame[OF u]
    have n0: "nonempty s" using s(1,2) assms(3,4) by (auto simp: nonempty_def)
    have n1: "nonempty s1" using f(4) n0 by simp
    have d1: "is_depleted s1 \<longrightarrow> resource_store s1 = 0" using f(6) s(4) by blast
    from generation_loop_rows[OF assms(5,6) n1, of "nat (arg_generations a - 1)" 1 np
        "rn_seed G (arg_seed a)" "[output_row a 0 s1 effectiveness av]"]
    obtain r new where
      lp: "generation_loop a (nat (arg_generations a - 1)) 1 s1 np (rn_seed G (arg_seed a))
             [output_row a 0 s1 effectiveness av] = Inr r"
          "rows r = [output_row a 0 s1 effectiveness av] @ new"
          "rows_ok a (nat (arg_generations a - 1)) 1 r new"
      by blast
    have co: "calls_ok s1 r" by (rule generation_loop_calls[OF assms(5,6) n1 d1 lp(1)])
    let ?r = "r\<lparr>calls := \<lparr>call_op = Update_resource_store, before = s, after = s1\<rparr> # calls r\<rparr>"
    have 1: "simulation_run G g a = Inr ?r" using run lp(1) by simp
    have 2: "rows ?r = output_row a 0 s1 effectiveness av # new" using lp(2) by simp
    have 3: "rows_ok a (nat (arg_generations a - 1)) 1 ?r new"
      using lp(3) by (cases "outcome r") (simp_all add: rows_ok_def)
    have 4: "?r\<lparr>calls := tl (calls ?r)\<rparr> = r" by simp
    have 5: "col_tech_complexity (output_row a 0 s1 effectiveness av) = nat (arg_t_length a)"
            "col_space_complexity (output_row a 0 s1 effectiveness av) = nat (arg_s_length a)"
            "col_generation (output_row a 0 s1 effectiveness av) = 0"
      using f(1,2) s(1,2) by (simp_all add: output_row_def)
    have 6: "calls ?r = \<lparr>call_op = Update_resource_store, before = s, after = s1\<rparr> # tl (calls ?r)"
      by simp
    have 7: "calls_ok s1 (?r\<lparr>calls := tl (calls ?r)\<rparr>)" using co by simp
    show ?thesis
      apply (rule exI[where x = ?r])
      apply (rule exI[where x = s])
      apply (rule exI[where x = s1])
      apply (rule exI[where x = "output_row a 0 s1 effectiveness av"])
      apply (rule exI[where x = new])
      apply (intro conjI)
      apply (fact 1 2 3 5 6 7 n0 n1 d1 s)+
      done
  qed
qed

lemma string_generator_eval:
  assumes "0 \<le> l"
  shows "string_generator p l t
         = Inr (map (\<lambda>r. if even r then CHR ''0'' else CHR ''1'') (stake (nat l) t),
                sdrop (nat l) t)"
proof -
  have "\<And>r::nat. [CHR ''0'', CHR ''1''] ! (r mod Suc (Suc 0))
                   = (if even r then CHR ''0'' else CHR ''1'')"
  proof -
    fix r :: nat
    have "r mod Suc (Suc 0) = (if even r then 0 else 1)"
      by (simp add: numeral_2_eq_2[symmetric] odd_iff_mod_2_eq_one)
    then show "[CHR ''0'', CHR ''1''] ! (r mod Suc (Suc 0))
               = (if even r then CHR ''0'' else CHR ''1'')" by simp
  qed
  then show ?thesis using assms by (simp add: string_generator_def np_choice_def)
qed

lemma example_depleting_run_explicit:
  "simulation_run (constant_prng (0 ## sconst 3) (sconst 0))
     \<lparr>np_state = sconst 0, rn_state = sconst 0\<rparr>
     \<lparr>arg_seed = 1, arg_limit = 20, arg_generations = 2, arg_s_length = 1,
      arg_s_prob = Some (1 / 2), arg_t_length = 1, arg_t_prob = Some (1 / 2),
      arg_eta = 1 / 2, arg_lambda = 1 / 2, arg_initial_endowment = 0,
      arg_p_tradeoff = 1 / 2\<rparr>
   = Inr \<lparr>outcome = Depleted 1,
          rows = [\<lparr>col_seed = 1, col_generation = 0, col_tech_complexity = 1,
                   col_space_complexity = 1, col_effectiveness = 0, col_initial_tech = 1,
                   col_initial_space = 1, col_eta = 1 / 2, col_lambda = 1 / 2,
                   col_initial_endowment = 0, col_p_tradeoff = 1 / 2,
                   col_available_resources = 0, col_resource_store = 0\<rparr>],
          final = \<lparr>space = ''0'', technologies = ''1'', resource_store = 0,
                    initial_endowment = 0, is_depleted = True\<rparr>,
          calls = [\<lparr>call_op = Update_resource_store,
                    before = \<lparr>space = ''0'', technologies = ''1'', resource_store = 0,
                              initial_endowment = 0, is_depleted = False\<rparr>,
                    after = \<lparr>space = ''0'', technologies = ''1'', resource_store = 0,
                             initial_endowment = 0, is_depleted = True\<rparr>\<rparr>,
                   \<lparr>call_op = Update_resource_store,
                    before = \<lparr>space = ''0'', technologies = ''1'', resource_store = 0,
                              initial_endowment = 0, is_depleted = True\<rparr>,
                    after = \<lparr>space = ''0'', technologies = ''1'', resource_store = 0,
                             initial_endowment = 0, is_depleted = True\<rparr>\<rparr>]\<rparr>"
proof -
  let ?S0 = "\<lparr>space = ''0'', technologies = ''1'', resource_store = 0 :: real,
              initial_endowment = 0 :: real, is_depleted = False\<rparr>"
  let ?SD = "\<lparr>space = ''0'', technologies = ''1'', resource_store = 0 :: real,
              initial_endowment = 0 :: real, is_depleted = True\<rparr>"
  have i: "Society_init 1 (Some (1 / 2)) 1 (Some (1 / 2)) 0 (0 ## sconst 3) = Inr (?S0, sconst 3)"
    by (simp add: Society_init_def string_generator_eval)
  have e: "evaluate ''0'' ''1'' = Inr 0" "evaluate ''1'' ''0'' = Inr 0"
    by (simp_all add: evaluate_def)
  have u: "update_resource_store ?S0 (- 1) = (0, ?SD)" "update_resource_store ?SD (- 1) = (0, ?SD)"
    by (simp_all add: update_resource_store_def)
  have k: "nat (2 - 1) = Suc 0" by simp
  show ?thesis
    by (simp add: simulation_run_def seed_all_def constant_prng_def i e u k
        resource_function_def output_row_def)
qed


lemma example_invalid_run:
  "simulation_run (constant_prng (sconst 0) (sconst 0)) example_rng example_invalid
   = Inr \<lparr>outcome = Complete,
          rows = [\<lparr>col_seed = 1, col_generation = 0, col_tech_complexity = 2,
                   col_space_complexity = 2, col_effectiveness = 1, col_initial_tech = 2,
                   col_initial_space = 2, col_eta = 1 / 2, col_lambda = 1 / 2,
                   col_initial_endowment = - 5, col_p_tradeoff = 1 / 2,
                   col_available_resources = 2, col_resource_store = - 5\<rparr>,
                  \<lparr>col_seed = 1, col_generation = 1, col_tech_complexity = 2,
                   col_space_complexity = 2, col_effectiveness = 1, col_initial_tech = 2,
                   col_initial_space = 2, col_eta = 1 / 2, col_lambda = 1 / 2,
                   col_initial_endowment = - 5, col_p_tradeoff = 1 / 2,
                   col_available_resources = 2, col_resource_store = - 5\<rparr>],
          final = \<lparr>space = ''00'', technologies = ''00'', resource_store = - 5,
                    initial_endowment = - 5, is_depleted = False\<rparr>,
          calls = [\<lparr>call_op = Update_resource_store,
                    before = \<lparr>space = ''00'', technologies = ''00'', resource_store = - 5,
                              initial_endowment = - 5, is_depleted = False\<rparr>,
                    after = \<lparr>space = ''00'', technologies = ''00'', resource_store = - 5,
                             initial_endowment = - 5, is_depleted = False\<rparr>\<rparr>,
                   \<lparr>call_op = Update_resource_store,
                    before = \<lparr>space = ''00'', technologies = ''00'', resource_store = - 5,
                              initial_endowment = - 5, is_depleted = False\<rparr>,
                    after = \<lparr>space = ''00'', technologies = ''00'', resource_store = - 5,
                             initial_endowment = - 5, is_depleted = False\<rparr>\<rparr>,
                   \<lparr>call_op = Tradeoff,
                    before = \<lparr>space = ''00'', technologies = ''00'', resource_store = - 5,
                              initial_endowment = - 5, is_depleted = False\<rparr>,
                    after = \<lparr>space = ''00'', technologies = ''00'', resource_store = - 5,
                             initial_endowment = - 5, is_depleted = False\<rparr>\<rparr>,
                   \<lparr>call_op = Ce_technologies,
                    before = \<lparr>space = ''00'', technologies = ''00'', resource_store = - 5,
                              initial_endowment = - 5, is_depleted = False\<rparr>,
                    after = \<lparr>space = ''00'', technologies = ''00'', resource_store = - 5,
                             initial_endowment = - 5, is_depleted = False\<rparr>\<rparr>,
                   \<lparr>call_op = Ce_technologies,
                    before = \<lparr>space = ''00'', technologies = ''00'', resource_store = - 5,
                              initial_endowment = - 5, is_depleted = False\<rparr>,
                    after = \<lparr>space = ''00'', technologies = ''00'', resource_store = - 5,
                             initial_endowment = - 5, is_depleted = False\<rparr>\<rparr>]\<rparr>"
proof -
  let ?S = "\<lparr>space = ''00'', technologies = ''00'', resource_store = - 5 :: real,
             initial_endowment = - 5 :: real, is_depleted = False\<rparr>"
  have i: "Society_init 2 (Some (1 / 2)) 2 (Some (1 / 2)) (- 5) (sconst 0) = Inr (?S, sconst 0)"
    by (simp add: Society_init_def string_generator_eval eval_nat_numeral)
  have e: "evaluate ''00'' ''00'' = Inr 1" "evaluate ''10'' ''00'' = Inr (1 / 2)"
    by (simp_all add: evaluate_def)
  have u: "update_resource_store ?S 2 = (2, ?S)"
    by (simp add: update_resource_store_def)
  have f: "flip ''00'' (sconst 0) = Inr (''10'', sconst 0)"
    by (simp add: flip_def rn_randint_def)
  have r: "rn_random (sconst 0) = (0, sconst 0)"
    by (simp add: rn_random_def unit_float_def)
  have c: "edit_candidate ''00'' (sconst 0) = Inr (''10'', sconst 0)"
    by (simp add: edit_candidate_def r f)
  have se: "string_edit ''00'' ''00'' (1 / 2) (sconst 0) = Inr (''00'', sconst 0)"
    by (simp add: string_edit_def c r e)
  have ac: "apply_choices (1 / 2) (1 / 2) [True, True] ?S (sconst 0)
            = Inr (?S, sconst 0,
                   [\<lparr>call_op = Ce_technologies, before = ?S, after = ?S\<rparr>,
                    \<lparr>call_op = Ce_technologies, before = ?S, after = ?S\<rparr>])"
    by (simp add: ce_technologies_def se)
  have t: "tradeoff 2 (1 / 2) (sconst 0) = Inr ([True, True], sconst 0)"
  proof -
    have uf: "unit_float 0 = 0" by (simp add: unit_float_def)
    have st: "stake (nat 2) (sconst 0) = [0, 0 :: nat]" "sdrop (nat 2) (sconst 0) = sconst (0 :: nat)"
      by (simp_all add: eval_nat_numeral)
    have tk: "tradeoff 2 (1 / 2) (sconst 0)
              = Inr (map (\<lambda>r. unit_float r < 1 / 2) (stake (nat 2) (sconst 0)),
                     sdrop (nat 2) (sconst 0))"
      by (rule tradeoff_ok) simp_all
    show ?thesis unfolding tk st by (simp add: uf)
  qed
  have p: "py_round 2 = 2" by (simp add: py_round_def)
  have ev: "evolve example_invalid 2 ?S (sconst 0) (sconst 0)
            = Inr (?S, sconst 0, sconst 0,
                   [\<lparr>call_op = Tradeoff, before = ?S, after = ?S\<rparr>,
                    \<lparr>call_op = Ce_technologies, before = ?S, after = ?S\<rparr>,
                    \<lparr>call_op = Ce_technologies, before = ?S, after = ?S\<rparr>])"
    by (simp add: evolve_def example_invalid_def p t ac del: apply_choices.simps)
  have lim: "arg_limit example_invalid = 20" by (simp add: example_invalid_def)
  have k: "nat (arg_generations example_invalid - 1) = Suc 0"
    by (simp add: example_invalid_def)
  have l: "generation_loop example_invalid (Suc 0) 1 ?S (sconst 0) (sconst 0) out
           = Inr \<lparr>outcome = Complete,
                  rows = out @ [output_row example_invalid 1 ?S 1 2],
                  final = ?S,
                  calls = [\<lparr>call_op = Update_resource_store, before = ?S, after = ?S\<rparr>,
                           \<lparr>call_op = Tradeoff, before = ?S, after = ?S\<rparr>,
                           \<lparr>call_op = Ce_technologies, before = ?S, after = ?S\<rparr>,
                           \<lparr>call_op = Ce_technologies, before = ?S, after = ?S\<rparr>]\<rparr>" for out
    by (simp add: e u ev resource_function_def lim)
  have fs: "arg_seed example_invalid = 1" "arg_s_length example_invalid = 2"
    "arg_s_prob example_invalid = Some (1 / 2)" "arg_t_length example_invalid = 2"
    "arg_t_prob example_invalid = Some (1 / 2)" "arg_eta example_invalid = 1 / 2"
    "arg_lambda example_invalid = 1 / 2" "arg_initial_endowment example_invalid = - 5"
    "arg_p_tradeoff example_invalid = 1 / 2"
    by (simp_all add: example_invalid_def)
  show ?thesis
    unfolding simulation_run_def k
    by (simp add: seed_all_def constant_prng_def example_rng_def fs i e u l
        resource_function_def output_row_def del: generation_loop.simps)
qed

lemma example_limit_run:
  "simulation_run (constant_prng (sconst 0) (sconst 0)) example_rng example_limit
   = Inr \<lparr>outcome = Complexity_limit 1,
          rows = [\<lparr>col_seed = 1, col_generation = 0, col_tech_complexity = 2,
                   col_space_complexity = 2, col_effectiveness = 1, col_initial_tech = 2,
                   col_initial_space = 2, col_eta = 1 / 2, col_lambda = 1 / 2,
                   col_initial_endowment = 100, col_p_tradeoff = 1 / 2,
                   col_available_resources = 2, col_resource_store = 100\<rparr>,
                  \<lparr>col_seed = 1, col_generation = 1, col_tech_complexity = 2,
                   col_space_complexity = 2, col_effectiveness = 1, col_initial_tech = 2,
                   col_initial_space = 2, col_eta = 1 / 2, col_lambda = 1 / 2,
                   col_initial_endowment = 100, col_p_tradeoff = 1 / 2,
                   col_available_resources = 2, col_resource_store = 100\<rparr>],
          final = \<lparr>space = ''00'', technologies = ''00'', resource_store = 100,
                    initial_endowment = 100, is_depleted = False\<rparr>,
          calls = [\<lparr>call_op = Update_resource_store,
                    before = \<lparr>space = ''00'', technologies = ''00'', resource_store = 100,
                              initial_endowment = 100, is_depleted = False\<rparr>,
                    after = \<lparr>space = ''00'', technologies = ''00'', resource_store = 100,
                             initial_endowment = 100, is_depleted = False\<rparr>\<rparr>,
                   \<lparr>call_op = Update_resource_store,
                    before = \<lparr>space = ''00'', technologies = ''00'', resource_store = 100,
                              initial_endowment = 100, is_depleted = False\<rparr>,
                    after = \<lparr>space = ''00'', technologies = ''00'', resource_store = 100,
                             initial_endowment = 100, is_depleted = False\<rparr>\<rparr>,
                   \<lparr>call_op = Tradeoff,
                    before = \<lparr>space = ''00'', technologies = ''00'', resource_store = 100,
                              initial_endowment = 100, is_depleted = False\<rparr>,
                    after = \<lparr>space = ''00'', technologies = ''00'', resource_store = 100,
                             initial_endowment = 100, is_depleted = False\<rparr>\<rparr>,
                   \<lparr>call_op = Ce_technologies,
                    before = \<lparr>space = ''00'', technologies = ''00'', resource_store = 100,
                              initial_endowment = 100, is_depleted = False\<rparr>,
                    after = \<lparr>space = ''00'', technologies = ''00'', resource_store = 100,
                             initial_endowment = 100, is_depleted = False\<rparr>\<rparr>,
                   \<lparr>call_op = Ce_technologies,
                    before = \<lparr>space = ''00'', technologies = ''00'', resource_store = 100,
                              initial_endowment = 100, is_depleted = False\<rparr>,
                    after = \<lparr>space = ''00'', technologies = ''00'', resource_store = 100,
                             initial_endowment = 100, is_depleted = False\<rparr>\<rparr>]\<rparr>"
proof -
  let ?S = "\<lparr>space = ''00'', technologies = ''00'', resource_store = 100 :: real,
             initial_endowment = 100 :: real, is_depleted = False\<rparr>"
  have i: "Society_init 2 (Some (1 / 2)) 2 (Some (1 / 2)) 100 (sconst 0) = Inr (?S, sconst 0)"
    by (simp add: Society_init_def string_generator_eval eval_nat_numeral)
  have e: "evaluate ''00'' ''00'' = Inr 1" "evaluate ''10'' ''00'' = Inr (1 / 2)"
    by (simp_all add: evaluate_def)
  have u: "update_resource_store ?S 2 = (2, ?S)"
    by (simp add: update_resource_store_def)
  have f: "flip ''00'' (sconst 0) = Inr (''10'', sconst 0)"
    by (simp add: flip_def rn_randint_def)
  have r: "rn_random (sconst 0) = (0, sconst 0)"
    by (simp add: rn_random_def unit_float_def)
  have c: "edit_candidate ''00'' (sconst 0) = Inr (''10'', sconst 0)"
    by (simp add: edit_candidate_def r f)
  have se: "string_edit ''00'' ''00'' (1 / 2) (sconst 0) = Inr (''00'', sconst 0)"
    by (simp add: string_edit_def c r e)
  have ac: "apply_choices (1 / 2) (1 / 2) [True, True] ?S (sconst 0)
            = Inr (?S, sconst 0,
                   [\<lparr>call_op = Ce_technologies, before = ?S, after = ?S\<rparr>,
                    \<lparr>call_op = Ce_technologies, before = ?S, after = ?S\<rparr>])"
    by (simp add: ce_technologies_def se)
  have t: "tradeoff 2 (1 / 2) (sconst 0) = Inr ([True, True], sconst 0)"
  proof -
    have uf: "unit_float 0 = 0" by (simp add: unit_float_def)
    have st: "stake (nat 2) (sconst 0) = [0, 0 :: nat]" "sdrop (nat 2) (sconst 0) = sconst (0 :: nat)"
      by (simp_all add: eval_nat_numeral)
    have tk: "tradeoff 2 (1 / 2) (sconst 0)
              = Inr (map (\<lambda>r. unit_float r < 1 / 2) (stake (nat 2) (sconst 0)),
                     sdrop (nat 2) (sconst 0))"
      by (rule tradeoff_ok) simp_all
    show ?thesis unfolding tk st by (simp add: uf)
  qed
  have p: "py_round 2 = 2" by (simp add: py_round_def)
  have ev: "evolve example_limit 2 ?S (sconst 0) (sconst 0)
            = Inr (?S, sconst 0, sconst 0,
                   [\<lparr>call_op = Tradeoff, before = ?S, after = ?S\<rparr>,
                    \<lparr>call_op = Ce_technologies, before = ?S, after = ?S\<rparr>,
                    \<lparr>call_op = Ce_technologies, before = ?S, after = ?S\<rparr>])"
    by (simp add: evolve_def example_limit_def p t ac del: apply_choices.simps)
  have lim: "arg_limit example_limit = 2" by (simp add: example_limit_def)
  have k: "nat (arg_generations example_limit - 1) = Suc 0"
    by (simp add: example_limit_def)
  have l: "generation_loop example_limit (Suc 0) 1 ?S (sconst 0) (sconst 0) out
           = Inr \<lparr>outcome = Complexity_limit 1,
                  rows = out @ [output_row example_limit 1 ?S 1 2],
                  final = ?S,
                  calls = [\<lparr>call_op = Update_resource_store, before = ?S, after = ?S\<rparr>,
                           \<lparr>call_op = Tradeoff, before = ?S, after = ?S\<rparr>,
                           \<lparr>call_op = Ce_technologies, before = ?S, after = ?S\<rparr>,
                           \<lparr>call_op = Ce_technologies, before = ?S, after = ?S\<rparr>]\<rparr>" for out
    by (simp add: e u ev resource_function_def lim)
  have fs: "arg_seed example_limit = 1" "arg_s_length example_limit = 2"
    "arg_s_prob example_limit = Some (1 / 2)" "arg_t_length example_limit = 2"
    "arg_t_prob example_limit = Some (1 / 2)" "arg_eta example_limit = 1 / 2"
    "arg_lambda example_limit = 1 / 2" "arg_initial_endowment example_limit = 100"
    "arg_p_tradeoff example_limit = 1 / 2"
    by (simp_all add: example_limit_def)
  show ?thesis
    unfolding simulation_run_def k
    by (simp add: seed_all_def constant_prng_def example_rng_def fs i e u l
        resource_function_def output_row_def del: generation_loop.simps)
qed

lemma delete_single:
  assumes "length s = 1"
  shows "delete s t = Inr ([], stl t)"
proof -
  from assms obtain c where "s = [c]" by (cases s) auto
  then show ?thesis by (simp add: delete_def rn_randint_def)
qed

lemma generation_loop_depleted_start:
  assumes "nonempty s" and "is_depleted s" and "resource_store s = 0"
  shows "generation_loop a (Suc k) gen s np rn out =
           Inr \<lparr>outcome = Depleted gen, rows = out, final = s,
                calls = [\<lparr>call_op = Update_resource_store, before = s, after = s\<rparr>]\<rparr>"
proof -
  from assms(1) have ne: "space s \<noteq> []" by (simp add: nonempty_def)
  from evaluate_ok(1)[OF ne, of "technologies s"] obtain eff where
    eff: "evaluate (space s) (technologies s) = Inr eff" by blast
  obtain av s1 where
    u: "update_resource_store s
          (resource_function (length (space s)) eff (length (technologies s))) = (av, s1)"
    by (cases "update_resource_store s
          (resource_function (length (space s)) eff (length (technologies s)))")
  have "s1 = s" by (rule update_resource_store_frame(7)[OF u assms(2,3)])
  then show ?thesis using eff u assms(2) by simp
qed

text \<open>
  Claim C1 asks that every symbol of the generated string is \<open>1\<close> with probability \<open>p\<close>.
  \<open>string_generator\<close> never looks at \<open>p\<close>: asked for three symbols with \<open>p = 1\<close> on
  a stream of zero draws it returns \<open>000\<close>, where the generator of the specification returns
  \<open>111\<close>, and it returns the same string for \<open>p = 0\<close> and \<open>p = 1\<close>.
\<close>

theorem string_generator_ignores_p:
  "string_generator 1 3 (sconst 0) = Inr (''000'', sconst 0)
   \<and> generate_spec 1 3 (sconst 0) = ''111''
   \<and> string_generator 0 3 (sconst 0) = string_generator 1 3 (sconst 0)"
proof -
  have "unit_float 0 = 0" by (simp add: unit_float_def)
  then show ?thesis
    by (simp add: string_generator_eval generate_spec_def eval_nat_numeral)
qed

text \<open>
  Claim C7.  The table and the exit of a run are a function of the seed and the parameters
  alone: whatever state the two process-wide generators were in when \<open>simulation\<close> was
  called, the run re-seeds both and returns the same result.
\<close>

theorem simulation_deterministic:
  "simulation G g a = simulation G g' a"
proof -
  have "simulation_run G g a = simulation_run G g' a"
    by (simp add: simulation_run_def seed_all_def cong: sum.case_cong prod.case_cong)
  then show ?thesis by (simp add: simulation_def)
qed

lemma updates_edit_calls:
  assumes "\<forall>c\<in>set cs. edit_call s c"
  shows "updates cs = []"
  using assms by (induction cs) (auto simp: updates_def edit_call_def)

lemma updates_step:
  assumes "\<forall>c\<in>set cs. edit_call s c"
  shows "updates (\<lparr>call_op = Update_resource_store, before = b, after = x\<rparr> # cs @ ds)
         = \<lparr>call_op = Update_resource_store, before = b, after = x\<rparr> # updates ds"
  using updates_edit_calls[OF assms] by (simp add: updates_def)

lemma stops_ok_step:
  assumes "stops_ok (gen + 1) k r" and "\<not> is_depleted s1"
    and "\<forall>c\<in>set cs. edit_call s1 c"
  shows "stops_ok gen (Suc k)
           (r\<lparr>calls := \<lparr>call_op = Update_resource_store, before = s, after = s1\<rparr>
                           # cs @ calls r\<rparr>)"
proof -
  let ?u = "\<lparr>call_op = Update_resource_store, before = s, after = s1\<rparr>"
  have a: "\<forall>c\<in>set cs. \<not> is_depleted (after c)"
    using assms(2,3) edit_call_active(4) by blast
  note u = updates_step[OF assms(3), of s s1 "calls r"]
  show ?thesis
  proof (cases "outcome r")
    case (Depleted g)
    with assms(1) have d: "calls r \<noteq> []" "call_op (last (calls r)) = Update_resource_store"
        "is_depleted (after (last (calls r)))" "is_depleted (final r)"
        "\<forall>c\<in>set (butlast (calls r)). \<not> is_depleted (after c)"
        "int (length (updates (calls r))) = g - (gen + 1) + 1"
      by (simp_all add: stops_ok_def)
    have b: "butlast (?u # cs @ calls r) = ?u # cs @ butlast (calls r)"
      using d(1) by (simp add: butlast_append)
    have l: "last (?u # cs @ calls r) = last (calls r)" using d(1) by simp
    show ?thesis
      unfolding stops_ok_def using Depleted d a assms(2) u
      by (auto simp: b l simp del: butlast.simps last.simps)
  next
    case (Complexity_limit g)
    with assms(1) show ?thesis
      unfolding stops_ok_def using a assms(2) u by auto
  next
    case Complete
    with assms(1) show ?thesis
      unfolding stops_ok_def using a assms(2) u by auto
  qed
qed

lemma generation_loop_stops:
  assumes "0 \<le> arg_p_tradeoff a" and "arg_p_tradeoff a \<le> 1"
    and "nonempty s" and "\<not> is_depleted s"
    and "generation_loop a k gen s np rn out = Inr r"
  shows "stops_ok gen k r"
  using assms(3-5)
proof (induction k arbitrary: s gen np rn out r)
  case 0
  then show ?case by (auto simp: stops_ok_def updates_def)
next
  case (Suc k)
  from Suc.prems(1) assms(1,2) show ?case
  proof (cases rule: generation_loop_Suc_cases[where k = k and gen = gen and np = np and rn = rn and out = out])
    case (depleted eff av s1)
    have r: "r = \<lparr>outcome = Depleted gen, rows = out, final = s1,
              calls = [\<lparr>call_op = Update_resource_store, before = s, after = s1\<rparr>]\<rparr>"
      using depleted(3) Suc.prems(3) by simp
    show ?thesis unfolding stops_ok_def r using depleted(2) by (simp add: updates_def)
  next
    case (limit eff av s1 s2 np' rn' cs e)
    have r: "r = \<lparr>outcome = Complexity_limit gen,
              rows = out @ [output_row a gen s2 e av], final = s2,
              calls = \<lparr>call_op = Update_resource_store, before = s, after = s1\<rparr> # cs\<rparr>"
      using limit(9) Suc.prems(3) by simp
    have a3: "\<not> is_depleted s2" using limit(5,2) by (simp add: same_resources_def)
    have a4: "\<forall>c\<in>set cs. \<not> is_depleted (after c)"
      using limit(7) edit_call_active(4)[OF _ limit(2)] by blast
    have u: "updates (\<lparr>call_op = Update_resource_store, before = s, after = s1\<rparr> # cs)
             = [\<lparr>call_op = Update_resource_store, before = s, after = s1\<rparr>]"
      using updates_step[OF limit(7), of s s1 "[]"] by (simp add: updates_def)
    show ?thesis unfolding stops_ok_def r using a3 a4 limit(2) u
      by (simp add: output_row_def)
  next
    case (continue eff av s1 s2 np' rn' cs e)
    obtain r' where
      r': "generation_loop a k (gen + 1) s2 np' rn' (out @ [output_row a gen s2 e av]) = Inr r'"
      and r: "r = r'\<lparr>calls := \<lparr>call_op = Update_resource_store, before = s, after = s1\<rparr>
                              # cs @ calls r'\<rparr>"
      using continue(9) Suc.prems(3) by (auto split: sum.splits)
    have a3: "\<not> is_depleted s2" using continue(5,2) by (simp add: same_resources_def)
    have ih: "stops_ok (gen + 1) k r'" by (rule Suc.IH[OF continue(4) a3 r'])
    show ?thesis unfolding r by (rule stops_ok_step[OF ih continue(2,7)])
  qed
qed

lemma updates_Cons_update:
  "updates (\<lparr>call_op = Update_resource_store, before = b, after = x\<rparr> # cs)
   = \<lparr>call_op = Update_resource_store, before = b, after = x\<rparr> # updates cs"
  by (simp add: updates_def)

lemma simulation_run_stops:
  assumes "0 \<le> arg_seed a" and "arg_seed a < 2 ^ 32"
    and "1 \<le> arg_s_length a" and "1 \<le> arg_t_length a"
    and "0 \<le> arg_p_tradeoff a" and "arg_p_tradeoff a \<le> 1"
    and "1 \<le> arg_generations a"
    and "simulation_run G g a = Inr r"
  shows "case outcome r of
           Depleted n \<Rightarrow>
             call_op (last (calls r)) = Update_resource_store
             \<and> is_depleted (after (last (calls r)))
             \<and> (\<forall>c\<in>set (butlast (tl (calls r))). \<not> is_depleted (after c))
             \<and> (2 \<le> n \<longrightarrow> \<not> is_depleted (after (hd (calls r))))
             \<and> int (length (updates (calls r))) = n + 1
         | Complexity_limit n \<Rightarrow>
             (\<forall>c\<in>set (calls r). \<not> is_depleted (after c)) \<and> \<not> is_depleted (final r)
             \<and> col_tech_complexity (last (rows r)) = length (technologies (final r))
             \<and> int (length (updates (calls r))) = n + 1
         | Complete \<Rightarrow>
             (\<forall>c\<in>set (tl (calls r)). \<not> is_depleted (after c))
             \<and> (2 \<le> arg_generations a \<longrightarrow>
                   (\<forall>c\<in>set (calls r). \<not> is_depleted (after c)) \<and> \<not> is_depleted (final r))
             \<and> int (length (updates (calls r))) = arg_generations a"
proof -
  have l: "0 \<le> arg_s_length a" "0 \<le> arg_t_length a" "0 < arg_s_length a \<or> 0 < arg_t_length a"
    using assms(3,4) by auto
  from assms(1,2) l show ?thesis
  proof (rule simulation_run_start[where G = G and g = g])
    fix s np effectiveness eff av s1
    assume s: "length (space s) = nat (arg_s_length a)"
        "length (technologies s) = nat (arg_t_length a)"
        "resource_store s = arg_initial_endowment a" "\<not> is_depleted s"
      and u: "update_resource_store s
           (resource_function (length (space s)) eff (length (technologies s))) = (av, s1)"
      and run: "simulation_run G g a =
         (case generation_loop a (nat (arg_generations a - 1)) 1 s1 np (rn_seed G (arg_seed a))
               [output_row a 0 s1 effectiveness av] of
          Inl x \<Rightarrow> Inl x
        | Inr r \<Rightarrow>
            Inr (r\<lparr>calls := \<lparr>call_op = Update_resource_store, before = s, after = s1\<rparr>
                              # calls r\<rparr>))"
    note f = update_resource_store_frame[OF u]
    let ?c0 = "\<lparr>call_op = Update_resource_store, before = s, after = s1\<rparr>"
    have n0: "nonempty s" using s(1,2) assms(3,4) by (auto simp: nonempty_def)
    have n1: "nonempty s1" using f(4) n0 by simp
    have d1: "is_depleted s1 \<longrightarrow> resource_store s1 = 0" using f(6) s(4) by blast
    show ?thesis
    proof (cases "is_depleted s1")
      case True
      then have z: "resource_store s1 = 0" using d1 by simp
      show ?thesis
      proof (cases "nat (arg_generations a - 1)")
        case 0
        then have g1: "arg_generations a = 1" using assms(7) by linarith
        have "r = \<lparr>outcome = Complete, rows = [output_row a 0 s1 effectiveness av],
                   final = s1, calls = [?c0]\<rparr>"
          using assms(8) unfolding run 0 by simp
        then show ?thesis using g1 by (simp add: updates_def)
      next
        case (Suc k)
        have "r = \<lparr>outcome = Depleted 1, rows = [output_row a 0 s1 effectiveness av],
                   final = s1,
                   calls = [?c0, \<lparr>call_op = Update_resource_store, before = s1, after = s1\<rparr>]\<rparr>"
          using assms(8) unfolding run Suc generation_loop_depleted_start[OF n1 True z] by simp
        then show ?thesis using True by (simp add: updates_def)
      qed
    next
      case False
      obtain r' where
        lp: "generation_loop a (nat (arg_generations a - 1)) 1 s1 np (rn_seed G (arg_seed a))
               [output_row a 0 s1 effectiveness av] = Inr r'"
        and r: "r = r'\<lparr>calls := ?c0 # calls r'\<rparr>"
        using assms(8) unfolding run by (auto split: sum.splits)
      have st: "stops_ok 1 (nat (arg_generations a - 1)) r'"
        by (rule generation_loop_stops[OF assms(5,6) n1 False lp])
      have k: "int (nat (arg_generations a - 1)) = arg_generations a - 1"
        using assms(7) by simp
      note uc = updates_Cons_update[of s s1 "calls r'"]
      show ?thesis
      proof (cases "outcome r'")
        case (Depleted n)
        with st have d: "calls r' \<noteq> []" "call_op (last (calls r')) = Update_resource_store"
            "is_depleted (after (last (calls r')))"
            "\<forall>c\<in>set (butlast (calls r')). \<not> is_depleted (after c)"
            "int (length (updates (calls r'))) = n - 1 + 1"
          by (simp_all add: stops_ok_def)
        have la: "last (?c0 # calls r') = last (calls r')" using d(1) by simp
        show ?thesis unfolding r using Depleted d False uc
          by (simp add: la del: last.simps)
      next
        case (Complexity_limit n)
        with st show ?thesis unfolding r using False uc by (simp add: stops_ok_def)
      next
        case Complete
        with st have c: "\<forall>c\<in>set (calls r'). \<not> is_depleted (after c)"
            "\<not> is_depleted (final r')"
            "length (updates (calls r')) = nat (arg_generations a - 1)"
          by (simp_all add: stops_ok_def)
        have "int (length (updates (?c0 # calls r'))) = arg_generations a"
          unfolding uc using c(3) k by simp
        then show ?thesis unfolding r using Complete c False by simp
      qed
    qed
  qed
qed

lemma simulation_of_run:
  "simulation_run G g a = Inr r \<Longrightarrow> simulation G g a = Inr (outcome r, rows r)"
  by (simp add: simulation_def)

lemma map_int_upt_Suc:
  "map int [0..<Suc n] = 0 # map (\<lambda>i. 1 + int i) [0..<n]"
  using map_upt_shift[of 0 n] by (simp del: upt_Suc)

lemma example_exhausting_run:
  "simulation_run (constant_prng (0 ## sconst 3) (sconst 0)) example_rng example_exhausting
   = Inr \<lparr>outcome = Depleted 1,
          rows = [\<lparr>col_seed = 1, col_generation = 0, col_tech_complexity = 1,
                   col_space_complexity = 1, col_effectiveness = 0, col_initial_tech = 1,
                   col_initial_space = 1, col_eta = 1 / 2, col_lambda = 1 / 2,
                   col_initial_endowment = 1, col_p_tradeoff = 1 / 2,
                   col_available_resources = 1, col_resource_store = 0\<rparr>],
          final = \<lparr>space = ''0'', technologies = ''1'', resource_store = 0,
                    initial_endowment = 1, is_depleted = True\<rparr>,
          calls = [\<lparr>call_op = Update_resource_store,
                    before = \<lparr>space = ''0'', technologies = ''1'', resource_store = 1,
                              initial_endowment = 1, is_depleted = False\<rparr>,
                    after = \<lparr>space = ''0'', technologies = ''1'', resource_store = 0,
                             initial_endowment = 1, is_depleted = False\<rparr>\<rparr>,
                   \<lparr>call_op = Update_resource_store,
                    before = \<lparr>space = ''0'', technologies = ''1'', resource_store = 0,
                              initial_endowment = 1, is_depleted = False\<rparr>,
                    after = \<lparr>space = ''0'', technologies = ''1'', resource_store = 0,
                             initial_endowment = 1, is_depleted = True\<rparr>\<rparr>]\<rparr>"
proof -
  let ?S0 = "\<lparr>space = ''0'', technologies = ''1'', resource_store = 1 :: real,
              initial_endowment = 1 :: real, is_depleted = False\<rparr>"
  let ?S1 = "\<lparr>space = ''0'', technologies = ''1'', resource_store = 0 :: real,
              initial_endowment = 1 :: real, is_depleted = False\<rparr>"
  let ?SD = "\<lparr>space = ''0'', technologies = ''1'', resource_store = 0 :: real,
              initial_endowment = 1 :: real, is_depleted = True\<rparr>"
  have i: "Society_init 1 (Some (1 / 2)) 1 (Some (1 / 2)) 1 (0 ## sconst 3) = Inr (?S0, sconst 3)"
    by (simp add: Society_init_def string_generator_eval)
  have e: "evaluate ''0'' ''1'' = Inr 0" "evaluate ''1'' ''0'' = Inr 0"
    by (simp_all add: evaluate_def)
  have u: "update_resource_store ?S0 (- 1) = (1, ?S1)" "update_resource_store ?S1 (- 1) = (0, ?SD)"
    by (simp_all add: update_resource_store_def)
  have k: "nat (arg_generations example_exhausting - 1) = Suc 0"
    by (simp add: example_exhausting_def)
  have fs: "arg_seed example_exhausting = 1" "arg_s_length example_exhausting = 1"
    "arg_s_prob example_exhausting = Some (1 / 2)" "arg_t_length example_exhausting = 1"
    "arg_t_prob example_exhausting = Some (1 / 2)" "arg_eta example_exhausting = 1 / 2"
    "arg_lambda example_exhausting = 1 / 2" "arg_initial_endowment example_exhausting = 1"
    "arg_p_tradeoff example_exhausting = 1 / 2"
    by (simp_all add: example_exhausting_def)
  show ?thesis
    unfolding simulation_run_def k
    by (simp add: seed_all_def constant_prng_def example_rng_def fs i e u
        resource_function_def output_row_def)
qed

lemma example_exhausting_valid:
  "0 \<le> arg_seed example_exhausting" "arg_seed example_exhausting < 2 ^ 32"
  "1 \<le> arg_s_length example_exhausting" "1 \<le> arg_t_length example_exhausting"
  "0 \<le> arg_p_tradeoff example_exhausting" "arg_p_tradeoff example_exhausting \<le> 1"
  "1 \<le> arg_generations example_exhausting"
  by (simp_all add: example_exhausting_def)

lemma example_limit_valid:
  "0 \<le> arg_seed example_limit" "arg_seed example_limit < 2 ^ 32"
  "1 \<le> arg_s_length example_limit" "1 \<le> arg_t_length example_limit"
  "0 \<le> arg_p_tradeoff example_limit" "arg_p_tradeoff example_limit \<le> 1"
  "1 \<le> arg_generations example_limit"
  by (simp_all add: example_limit_def)

lemma example_invalid_valid:
  "0 \<le> arg_seed example_invalid" "arg_seed example_invalid < 2 ^ 32"
  "1 \<le> arg_s_length example_invalid" "1 \<le> arg_t_length example_invalid"
  "0 \<le> arg_p_tradeoff example_invalid" "arg_p_tradeoff example_invalid \<le> 1"
  "1 \<le> arg_generations example_invalid"
  by (simp_all add: example_invalid_def)

text \<open>
  Claim C6.  A run with a valid seed, initial lengths of at least one, a trade-off
  probability in \<open>[0, 1]\<close> and a generation limit of at least one returns a non-empty table
  with at most as many rows as the generation limit, numbered \<open>0, 1, 2, \<dots>\<close>, through
  exactly one of three exits, and it makes one store update per generation it starts.

  On depletion at generation \<open>n \<ge> 1\<close> the table has the \<open>n\<close> rows of the generations
  before \<open>n\<close>; the last call is the store update that left the society depleted, and the
  run made \<open>n + 1\<close> store updates: it stopped at once.  No call of the loop before the
  last one left the society depleted, and for \<open>n \<ge> 2\<close> neither did the update of
  generation \<open>0\<close>.

  On the complexity limit at generation \<open>n\<close> the table ends with the row of generation
  \<open>n\<close>, which shows the length of the final technological system, and that length has
  reached the limit; no call left the society depleted.

  Otherwise the table has exactly as many rows as the generation limit, the run made as
  many store updates, and no call of the loop left the society depleted; with a generation
  limit of at least two the society is not depleted at the end.

  In all three cases no row of an earlier generation \<open>\<ge> 1\<close> had reached the complexity
  limit.
\<close>

theorem simulation_terminates:
  assumes "0 \<le> arg_seed a" and "arg_seed a < 2 ^ 32"
    and "1 \<le> arg_s_length a" and "1 \<le> arg_t_length a"
    and "0 \<le> arg_p_tradeoff a" and "arg_p_tradeoff a \<le> 1"
    and "1 \<le> arg_generations a"
  shows "\<exists>r. simulation_run G g a = Inr r
           \<and> simulation G g a = Inr (outcome r, rows r)
           \<and> rows r \<noteq> []
           \<and> int (length (rows r)) \<le> arg_generations a
           \<and> map col_generation (rows r) = map int [0..<length (rows r)]
           \<and> (case outcome r of
                 Depleted n \<Rightarrow>
                   1 \<le> n \<and> int (length (rows r)) = n \<and> is_depleted (final r)
                   \<and> (\<forall>x\<in>set (tl (rows r)). int (col_tech_complexity x) < arg_limit a)
                   \<and> call_op (last (calls r)) = Update_resource_store
                   \<and> is_depleted (after (last (calls r)))
                   \<and> (\<forall>c\<in>set (butlast (tl (calls r))). \<not> is_depleted (after c))
                   \<and> (2 \<le> n \<longrightarrow> \<not> is_depleted (after (hd (calls r))))
                   \<and> int (length (updates (calls r))) = n + 1
               | Complexity_limit n \<Rightarrow>
                   1 \<le> n \<and> int (length (rows r)) = n + 1
                   \<and> col_generation (last (rows r)) = n
                   \<and> arg_limit a \<le> int (col_tech_complexity (last (rows r)))
                   \<and> (\<forall>x\<in>set (butlast (tl (rows r))). int (col_tech_complexity x) < arg_limit a)
                   \<and> (\<forall>c\<in>set (calls r). \<not> is_depleted (after c)) \<and> \<not> is_depleted (final r)
                   \<and> col_tech_complexity (last (rows r)) = length (technologies (final r))
                   \<and> int (length (updates (calls r))) = n + 1
               | Complete \<Rightarrow>
                   int (length (rows r)) = arg_generations a
                   \<and> (\<forall>x\<in>set (tl (rows r)). int (col_tech_complexity x) < arg_limit a)
                   \<and> (\<forall>c\<in>set (tl (calls r)). \<not> is_depleted (after c))
                   \<and> (2 \<le> arg_generations a \<longrightarrow>
                         (\<forall>c\<in>set (calls r). \<not> is_depleted (after c))
                         \<and> \<not> is_depleted (final r))
                   \<and> int (length (updates (calls r))) = arg_generations a)"
proof -
  from simulation_run_valid[OF assms(1-6), of G g] obtain r row0 new where
    r: "simulation_run G g a = Inr r" "rows r = row0 # new" "col_generation row0 = 0"
       "rows_ok a (nat (arg_generations a - 1)) 1 r new"
    by blast
  note st = simulation_run_stops[OF assms r(1)]
  have g: "map col_generation new = map (\<lambda>i. 1 + int i) [0..<length new]"
    using r(4) by (simp add: rows_ok_def)
  have m: "map col_generation (rows r) = map int [0..<length (rows r)]"
    unfolding r(2) using r(3) g map_int_upt_Suc[of "length new"] by (simp del: upt_Suc)
  have k: "int (nat (arg_generations a - 1)) = arg_generations a - 1" using assms(7) by simp
  have c: "int (length (rows r)) \<le> arg_generations a \<and>
       (case outcome r of
          Depleted n \<Rightarrow>
            1 \<le> n \<and> int (length (rows r)) = n \<and> is_depleted (final r)
            \<and> (\<forall>x\<in>set (tl (rows r)). int (col_tech_complexity x) < arg_limit a)
        | Complexity_limit n \<Rightarrow>
            1 \<le> n \<and> int (length (rows r)) = n + 1
            \<and> col_generation (last (rows r)) = n
            \<and> arg_limit a \<le> int (col_tech_complexity (last (rows r)))
            \<and> (\<forall>x\<in>set (butlast (tl (rows r))). int (col_tech_complexity x) < arg_limit a)
        | Complete \<Rightarrow>
            int (length (rows r)) = arg_generations a
            \<and> (\<forall>x\<in>set (tl (rows r)). int (col_tech_complexity x) < arg_limit a))"
  proof (cases "outcome r")
    case (Depleted n)
    then show ?thesis using r(4) k unfolding r(2) rows_ok_def by simp linarith
  next
    case (Complexity_limit n)
    then have ne: "new \<noteq> []" and n: "n = 1 + int (length new) - 1"
      and le: "length new \<le> nat (arg_generations a - 1)"
      and lim: "arg_limit a \<le> int (col_tech_complexity (last new))"
      and bl: "\<forall>x\<in>set (butlast new). int (col_tech_complexity x) < arg_limit a"
      using r(4) unfolding rows_ok_def by simp_all
    have "col_generation (last new) = last (map col_generation new)"
      using ne by (simp add: last_map)
    also have "\<dots> = 1 + int (length new - 1)"
      unfolding g using ne by (simp add: last_map)
    finally have lg: "col_generation (last new) = n" using n ne by (cases new) auto
    have a1: "1 + int (length new) \<le> arg_generations a" using le assms(7) by linarith
    have a2: "Suc 0 \<le> length new" using ne by (cases new) auto
    show ?thesis using Complexity_limit ne n lim bl lg a1 a2 unfolding r(2)
      by simp
  next
    case Complete
    then show ?thesis using r(4) k unfolding r(2) rows_ok_def by simp
  qed
  have "rows r \<noteq> []" using r(2) by simp
  moreover have "(case outcome r of
                 Depleted n \<Rightarrow>
                   1 \<le> n \<and> int (length (rows r)) = n \<and> is_depleted (final r)
                   \<and> (\<forall>x\<in>set (tl (rows r)). int (col_tech_complexity x) < arg_limit a)
                   \<and> call_op (last (calls r)) = Update_resource_store
                   \<and> is_depleted (after (last (calls r)))
                   \<and> (\<forall>c\<in>set (butlast (tl (calls r))). \<not> is_depleted (after c))
                   \<and> (2 \<le> n \<longrightarrow> \<not> is_depleted (after (hd (calls r))))
                   \<and> int (length (updates (calls r))) = n + 1
               | Complexity_limit n \<Rightarrow>
                   1 \<le> n \<and> int (length (rows r)) = n + 1
                   \<and> col_generation (last (rows r)) = n
                   \<and> arg_limit a \<le> int (col_tech_complexity (last (rows r)))
                   \<and> (\<forall>x\<in>set (butlast (tl (rows r))). int (col_tech_complexity x) < arg_limit a)
                   \<and> (\<forall>c\<in>set (calls r). \<not> is_depleted (after c)) \<and> \<not> is_depleted (final r)
                   \<and> col_tech_complexity (last (rows r)) = length (technologies (final r))
                   \<and> int (length (updates (calls r))) = n + 1
               | Complete \<Rightarrow>
                   int (length (rows r)) = arg_generations a
                   \<and> (\<forall>x\<in>set (tl (rows r)). int (col_tech_complexity x) < arg_limit a)
                   \<and> (\<forall>c\<in>set (tl (calls r)). \<not> is_depleted (after c))
                   \<and> (2 \<le> arg_generations a \<longrightarrow>
                         (\<forall>c\<in>set (calls r). \<not> is_depleted (after c))
                         \<and> \<not> is_depleted (final r))
                   \<and> int (length (updates (calls r))) = arg_generations a)"
    using c st by (cases "outcome r") simp_all
  ultimately show ?thesis
    using r(1) simulation_of_run[OF r(1)] m c by blast
qed

text \<open>
  The three exits: a run that exhausts an endowment of \<open>1\<close> at generation \<open>1\<close>, a run
  that reaches a complexity limit of \<open>2\<close> at generation \<open>1\<close>, and a run of two generations
  that ends by the generation limit.
\<close>

theorem simulation_terminates_witness:
  "(\<exists>r. simulation_run (constant_prng (0 ## sconst 3) (sconst 0)) example_rng example_exhausting
          = Inr r
        \<and> outcome r = Depleted 1 \<and> length (rows r) = 1 \<and> is_depleted (final r)
        \<and> length (updates (calls r)) = 2)
   \<and> (\<exists>r. simulation_run (constant_prng (sconst 0) (sconst 0)) example_rng example_limit = Inr r
        \<and> outcome r = Complexity_limit 1 \<and> length (rows r) = 2
        \<and> arg_limit example_limit \<le> int (length (technologies (final r)))
        \<and> \<not> is_depleted (final r) \<and> length (updates (calls r)) = 2)
   \<and> (\<exists>r. simulation_run (constant_prng (sconst 0) (sconst 0)) example_rng example_invalid = Inr r
        \<and> outcome r = Complete \<and> length (rows r) = 2
        \<and> map col_generation (rows r) = [0, 1]
        \<and> \<not> is_depleted (final r) \<and> length (updates (calls r)) = 2)"
proof -
  note d = simulation_terminates[OF example_exhausting_valid,
      of "constant_prng (0 ## sconst 3) (sconst 0)" example_rng]
  note l = simulation_terminates[OF example_limit_valid,
      of "constant_prng (sconst 0) (sconst 0)" example_rng]
  note c = simulation_terminates[OF example_invalid_valid,
      of "constant_prng (sconst 0) (sconst 0)" example_rng]
  have 1: "\<exists>r. simulation_run (constant_prng (0 ## sconst 3) (sconst 0)) example_rng
            example_exhausting = Inr r
        \<and> outcome r = Depleted 1 \<and> length (rows r) = 1 \<and> is_depleted (final r)
        \<and> length (updates (calls r)) = 2"
    using d unfolding example_exhausting_run by simp
  have 2: "\<exists>r. simulation_run (constant_prng (sconst 0) (sconst 0)) example_rng example_limit
            = Inr r
        \<and> outcome r = Complexity_limit 1 \<and> length (rows r) = 2
        \<and> arg_limit example_limit \<le> int (length (technologies (final r)))
        \<and> \<not> is_depleted (final r) \<and> length (updates (calls r)) = 2"
    using l unfolding example_limit_run by simp
  have 3: "\<exists>r. simulation_run (constant_prng (sconst 0) (sconst 0)) example_rng example_invalid
            = Inr r
        \<and> outcome r = Complete \<and> length (rows r) = 2
        \<and> map col_generation (rows r) = [0, 1]
        \<and> \<not> is_depleted (final r) \<and> length (updates (calls r)) = 2"
    using c unfolding example_invalid_run by (simp add: example_invalid_def)
  show ?thesis using 1 2 3 by blast
qed

text \<open>
  Claim C10.  In a run with a valid seed, initial lengths of at least one and a trade-off
  probability in \<open>[0, 1]\<close>, the call log starts from a society with strings of the initial
  lengths and leads to the final society, and both strings are non-empty before and after
  every call, at the end of the run and in every row of the table.  The reason is that
  \<open>string_edit\<close> returns a non-empty string for every non-empty input, although \<open>delete\<close>
  itself turns a string of length one into the empty string.
\<close>

theorem strings_stay_nonempty:
  assumes "0 \<le> arg_seed a" and "arg_seed a < 2 ^ 32"
    and "1 \<le> arg_s_length a" and "1 \<le> arg_t_length a"
    and "0 \<le> arg_p_tradeoff a" and "arg_p_tradeoff a \<le> 1"
  shows "(\<exists>r s0. simulation_run G g a = Inr r
            \<and> chained s0 (calls r) (final r)
            \<and> length (space s0) = nat (arg_s_length a)
            \<and> length (technologies s0) = nat (arg_t_length a)
            \<and> (\<forall>c\<in>set (calls r).
                  space (before c) \<noteq> [] \<and> technologies (before c) \<noteq> []
                  \<and> space (after c) \<noteq> [] \<and> technologies (after c) \<noteq> [])
            \<and> space (final r) \<noteq> [] \<and> technologies (final r) \<noteq> []
            \<and> (\<forall>x\<in>set (rows r). 1 \<le> col_tech_complexity x \<and> 1 \<le> col_space_complexity x))
       \<and> (\<forall>s ref eff t. s \<noteq> [] \<longrightarrow>
             (\<exists>new t'. string_edit s ref eff t = Inr (new, t') \<and> new \<noteq> []))
       \<and> (\<forall>s t. length s = 1 \<longrightarrow> delete s t = Inr ([], stl t))"
proof -
  from simulation_run_valid[OF assms, of G g] obtain r s0 s1 row0 new where
    r: "simulation_run G g a = Inr r" "rows r = row0 # new"
       "col_tech_complexity row0 = nat (arg_t_length a)"
       "col_space_complexity row0 = nat (arg_s_length a)"
       "rows_ok a (nat (arg_generations a - 1)) 1 r new"
       "calls r = \<lparr>call_op = Update_resource_store, before = s0, after = s1\<rparr> # tl (calls r)"
       "nonempty s0" "length (space s0) = nat (arg_s_length a)"
       "length (technologies s0) = nat (arg_t_length a)"
       "nonempty s1" "calls_ok s1 (r\<lparr>calls := tl (calls r)\<rparr>)"
    by blast
  from r(11) have co: "chained s1 (tl (calls r)) (final r)" "nonempty (final r)"
      "\<forall>c\<in>set (tl (calls r)). nonempty (before c) \<and> nonempty (after c)"
    by (simp_all add: calls_ok_def)
  have ch: "chained s0 (calls r) (final r)"
    by (subst r(6)) (simp add: co(1))
  have "\<forall>c\<in>set (\<lparr>call_op = Update_resource_store, before = s0, after = s1\<rparr> # tl (calls r)).
          nonempty (before c) \<and> nonempty (after c)"
    using co(3) r(7,10) by simp
  then have cs: "\<forall>c\<in>set (calls r). nonempty (before c) \<and> nonempty (after c)"
    using r(6) by simp
  have rw: "\<forall>x\<in>set (rows r). 1 \<le> col_tech_complexity x \<and> 1 \<le> col_space_complexity x"
  proof -
    have "Suc 0 \<le> nat (arg_t_length a)" "Suc 0 \<le> nat (arg_s_length a)"
      using assms(3,4) by linarith+
    then show ?thesis using r(2,3,4,5) by (simp add: rows_ok_def)
  qed
  have 1: "\<exists>r s0. simulation_run G g a = Inr r
            \<and> chained s0 (calls r) (final r)
            \<and> length (space s0) = nat (arg_s_length a)
            \<and> length (technologies s0) = nat (arg_t_length a)
            \<and> (\<forall>c\<in>set (calls r).
                  space (before c) \<noteq> [] \<and> technologies (before c) \<noteq> []
                  \<and> space (after c) \<noteq> [] \<and> technologies (after c) \<noteq> [])
            \<and> space (final r) \<noteq> [] \<and> technologies (final r) \<noteq> []
            \<and> (\<forall>x\<in>set (rows r). 1 \<le> col_tech_complexity x \<and> 1 \<le> col_space_complexity x)"
    using r(1,8,9) ch cs co(2) rw unfolding nonempty_def by blast
  show ?thesis using 1 string_edit_ok delete_single by blast
qed

text \<open>
  The five calls of a run of two generations, and the string \<open>0\<close> under \<open>string_edit\<close>
  and \<open>delete\<close>.
\<close>

theorem strings_stay_nonempty_witness:
  "(\<exists>r. simulation_run (constant_prng (sconst 0) (sconst 0)) example_rng example_invalid = Inr r
        \<and> length (calls r) = 5
        \<and> (\<forall>c\<in>set (calls r).
              space (before c) \<noteq> [] \<and> technologies (before c) \<noteq> []
              \<and> space (after c) \<noteq> [] \<and> technologies (after c) \<noteq> []))
   \<and> (\<exists>new t'. string_edit ''0'' ''1'' 1 (sconst 0) = Inr (new, t') \<and> new \<noteq> [])
   \<and> delete ''0'' (sconst 0) = Inr ([], stl (sconst 0))"
proof -
  have l: "length ''0'' = 1" and n: "''0'' \<noteq> []" by simp_all
  note t = strings_stay_nonempty[OF example_invalid_valid(1-6),
      of "constant_prng (sconst 0) (sconst 0)" example_rng]
  from t obtain r where
    r: "simulation_run (constant_prng (sconst 0) (sconst 0)) example_rng example_invalid = Inr r"
       "\<forall>c\<in>set (calls r).
              space (before c) \<noteq> [] \<and> technologies (before c) \<noteq> []
              \<and> space (after c) \<noteq> [] \<and> technologies (after c) \<noteq> []"
    by blast
  from r(1) have "length (calls r) = 5" unfolding example_invalid_run by auto
  with r have 1: "\<exists>r. simulation_run (constant_prng (sconst 0) (sconst 0)) example_rng
          example_invalid = Inr r
        \<and> length (calls r) = 5
        \<and> (\<forall>c\<in>set (calls r).
              space (before c) \<noteq> [] \<and> technologies (before c) \<noteq> []
              \<and> space (after c) \<noteq> [] \<and> technologies (after c) \<noteq> [])" by blast
  from t n have 2: "\<exists>new t'. string_edit ''0'' ''1'' 1 (sconst 0) = Inr (new, t') \<and> new \<noteq> []"
    by blast
  from t l have 3: "delete ''0'' (sconst 0) = Inr ([], stl (sconst 0))" by blast
  show ?thesis using 1 2 3 by blast
qed

lemma example_depleting_valid:
  "0 \<le> arg_seed example_depleting" "arg_seed example_depleting < 2 ^ 32"
  "1 \<le> arg_s_length example_depleting" "1 \<le> arg_t_length example_depleting"
  "0 \<le> arg_p_tradeoff example_depleting" "arg_p_tradeoff example_depleting \<le> 1"
  by (simp_all add: example_depleting_def)

lemma example_depleting_run:
  "simulation_run (constant_prng (0 ## sconst 3) (sconst 0)) example_rng example_depleting
   = Inr \<lparr>outcome = Depleted 1,
          rows = [\<lparr>col_seed = 1, col_generation = 0, col_tech_complexity = 1,
                   col_space_complexity = 1, col_effectiveness = 0, col_initial_tech = 1,
                   col_initial_space = 1, col_eta = 1 / 2, col_lambda = 1 / 2,
                   col_initial_endowment = 0, col_p_tradeoff = 1 / 2,
                   col_available_resources = 0, col_resource_store = 0\<rparr>],
          final = \<lparr>space = ''0'', technologies = ''1'', resource_store = 0,
                    initial_endowment = 0, is_depleted = True\<rparr>,
          calls = [\<lparr>call_op = Update_resource_store,
                    before = \<lparr>space = ''0'', technologies = ''1'', resource_store = 0,
                              initial_endowment = 0, is_depleted = False\<rparr>,
                    after = \<lparr>space = ''0'', technologies = ''1'', resource_store = 0,
                             initial_endowment = 0, is_depleted = True\<rparr>\<rparr>,
                   \<lparr>call_op = Update_resource_store,
                    before = \<lparr>space = ''0'', technologies = ''1'', resource_store = 0,
                              initial_endowment = 0, is_depleted = True\<rparr>,
                    after = \<lparr>space = ''0'', technologies = ''1'', resource_store = 0,
                             initial_endowment = 0, is_depleted = True\<rparr>\<rparr>]\<rparr>"
  using example_depleting_run_explicit by (simp add: example_depleting_def example_rng_def)

text \<open>
  Claim C3, as the code has it.  In a run with a valid seed, initial lengths of at least
  one and a trade-off probability in \<open>[0, 1]\<close>, the call log leads from the initial, not
  depleted society to the final one; whenever a call leaves the society depleted its store
  is \<open>0\<close>; and a call that finds the society depleted is a store update that changes
  nothing.  There is such a call only when the first store update, the one of generation
  \<open>0\<close>, depleted the society: the log then consists of that update and the one of
  generation \<open>1\<close>, and the run stops there with the row of generation \<open>0\<close> alone.
\<close>

theorem depletion_absorbing:
  assumes "0 \<le> arg_seed a" and "arg_seed a < 2 ^ 32"
    and "1 \<le> arg_s_length a" and "1 \<le> arg_t_length a"
    and "0 \<le> arg_p_tradeoff a" and "arg_p_tradeoff a \<le> 1"
  shows "\<exists>r s0. simulation_run G g a = Inr r
           \<and> chained s0 (calls r) (final r) \<and> \<not> is_depleted s0
           \<and> (\<forall>c\<in>set (calls r).
                 (is_depleted (after c) \<longrightarrow> resource_store (after c) = 0)
                 \<and> (is_depleted (before c) \<longrightarrow>
                       call_op c = Update_resource_store \<and> after c = before c))
           \<and> ((\<exists>c\<in>set (calls r). is_depleted (before c)) \<longrightarrow>
                 length (calls r) = 2 \<and> is_depleted (after (hd (calls r)))
                 \<and> outcome r = Depleted 1 \<and> length (rows r) = 1)"
proof -
  have l: "0 \<le> arg_s_length a" "0 \<le> arg_t_length a" "0 < arg_s_length a \<or> 0 < arg_t_length a"
    using assms(3,4) by auto
  from assms(1,2) l show ?thesis
  proof (rule simulation_run_start[where G = G and g = g])
    fix s np effectiveness eff av s1
    assume s: "length (space s) = nat (arg_s_length a)"
        "length (technologies s) = nat (arg_t_length a)"
        "resource_store s = arg_initial_endowment a" "\<not> is_depleted s"
      and u: "update_resource_store s
           (resource_function (length (space s)) eff (length (technologies s))) = (av, s1)"
      and run: "simulation_run G g a =
         (case generation_loop a (nat (arg_generations a - 1)) 1 s1 np (rn_seed G (arg_seed a))
               [output_row a 0 s1 effectiveness av] of
          Inl x \<Rightarrow> Inl x
        | Inr r \<Rightarrow>
            Inr (r\<lparr>calls := \<lparr>call_op = Update_resource_store, before = s, after = s1\<rparr>
                              # calls r\<rparr>))"
    note f = update_resource_store_frame[OF u]
    have n0: "nonempty s" using s(1,2) assms(3,4) by (auto simp: nonempty_def)
    have n1: "nonempty s1" using f(4) n0 by simp
    have d1: "is_depleted s1 \<longrightarrow> resource_store s1 = 0" using f(6) s(4) by blast
    show ?thesis
    proof (cases "is_depleted s1")
      case True
      then have z: "resource_store s1 = 0" using d1 by simp
      show ?thesis
      proof (cases "nat (arg_generations a - 1)")
        case 0
        let ?R = "\<lparr>outcome = Complete, rows = [output_row a 0 s1 effectiveness av],
                     final = s1,
                     calls = [\<lparr>call_op = Update_resource_store, before = s, after = s1\<rparr>]\<rparr>"
        have "simulation_run G g a = Inr ?R"
          unfolding run 0 by simp
        then show ?thesis using s(4) z
          by (intro exI[where x = ?R] exI[where x = s]) simp
      next
        case (Suc k)
        let ?R = "\<lparr>outcome = Depleted 1, rows = [output_row a 0 s1 effectiveness av],
                     final = s1,
                     calls = [\<lparr>call_op = Update_resource_store, before = s, after = s1\<rparr>,
                              \<lparr>call_op = Update_resource_store, before = s1, after = s1\<rparr>]\<rparr>"
        have "simulation_run G g a = Inr ?R"
          unfolding run Suc generation_loop_depleted_start[OF n1 True z] by simp
        then show ?thesis using s(4) z True
          by (intro exI[where x = ?R] exI[where x = s]) simp
      qed
    next
      case False
      from generation_loop_rows[OF assms(5,6) n1, of "nat (arg_generations a - 1)" 1 np
          "rn_seed G (arg_seed a)" "[output_row a 0 s1 effectiveness av]"]
      obtain r where
        lp: "generation_loop a (nat (arg_generations a - 1)) 1 s1 np (rn_seed G (arg_seed a))
               [output_row a 0 s1 effectiveness av] = Inr r"
        by blast
      have co: "calls_ok s1 r" by (rule generation_loop_calls[OF assms(5,6) n1 d1 lp])
      then have c: "chained s1 (calls r) (final r)"
          "\<forall>c\<in>set (calls r). is_depleted (after c) \<longrightarrow> resource_store (after c) = 0"
          "\<forall>c\<in>set (calls r). \<not> is_depleted (before c)"
        using False by (simp_all add: calls_ok_def)
      let ?R = "r\<lparr>calls := \<lparr>call_op = Update_resource_store, before = s, after = s1\<rparr>
                                # calls r\<rparr>"
      have "simulation_run G g a = Inr ?R"
        unfolding run lp by simp
      then show ?thesis using s(4) False c
        by (intro exI[where x = ?R] exI[where x = s]) simp
    qed
  qed
qed

text \<open>
  Claim C3 as stated says that no operation is invoked on a depleted society.  With an
  endowment of \<open>0\<close> and strings \<open>0\<close> and \<open>1\<close> the society is depleted at generation \<open>0\<close>,
  and the second logged call, the store update of generation \<open>1\<close>, finds it depleted.
\<close>

theorem depletion_absorbing_counterexample:
  "simulation_run (constant_prng (0 ## sconst 3) (sconst 0)) example_rng example_depleting
   = Inr \<lparr>outcome = Depleted 1,
          rows = [\<lparr>col_seed = 1, col_generation = 0, col_tech_complexity = 1,
                   col_space_complexity = 1, col_effectiveness = 0, col_initial_tech = 1,
                   col_initial_space = 1, col_eta = 1 / 2, col_lambda = 1 / 2,
                   col_initial_endowment = 0, col_p_tradeoff = 1 / 2,
                   col_available_resources = 0, col_resource_store = 0\<rparr>],
          final = \<lparr>space = ''0'', technologies = ''1'', resource_store = 0,
                    initial_endowment = 0, is_depleted = True\<rparr>,
          calls = [\<lparr>call_op = Update_resource_store,
                    before = \<lparr>space = ''0'', technologies = ''1'', resource_store = 0,
                              initial_endowment = 0, is_depleted = False\<rparr>,
                    after = \<lparr>space = ''0'', technologies = ''1'', resource_store = 0,
                             initial_endowment = 0, is_depleted = True\<rparr>\<rparr>,
                   \<lparr>call_op = Update_resource_store,
                    before = \<lparr>space = ''0'', technologies = ''1'', resource_store = 0,
                              initial_endowment = 0, is_depleted = True\<rparr>,
                    after = \<lparr>space = ''0'', technologies = ''1'', resource_store = 0,
                             initial_endowment = 0, is_depleted = True\<rparr>\<rparr>]\<rparr>
   \<and> is_depleted \<lparr>space = ''0'', technologies = ''1'', resource_store = 0 :: real,
                    initial_endowment = 0 :: real, is_depleted = True\<rparr>"
  using example_depleting_run by simp

text \<open>
  The same run: it has a call on a depleted society, which changes nothing, two calls in
  all, and it stops at generation \<open>1\<close> with one row.
\<close>

theorem depletion_absorbing_witness:
  "\<exists>r. simulation_run (constant_prng (0 ## sconst 3) (sconst 0)) example_rng example_depleting
          = Inr r
        \<and> (\<exists>c\<in>set (calls r). is_depleted (before c))
        \<and> (\<forall>c\<in>set (calls r). is_depleted (before c) \<longrightarrow> after c = before c)
        \<and> length (calls r) = 2 \<and> outcome r = Depleted 1 \<and> length (rows r) = 1"
proof -
  from depletion_absorbing[OF example_depleting_valid,
      of "constant_prng (0 ## sconst 3) (sconst 0)" example_rng]
  obtain r where
    r: "simulation_run (constant_prng (0 ## sconst 3) (sconst 0)) example_rng example_depleting
          = Inr r"
       "\<forall>c\<in>set (calls r).
           (is_depleted (after c) \<longrightarrow> resource_store (after c) = 0)
           \<and> (is_depleted (before c) \<longrightarrow>
                 call_op c = Update_resource_store \<and> after c = before c)"
       "(\<exists>c\<in>set (calls r). is_depleted (before c)) \<longrightarrow>
           length (calls r) = 2 \<and> is_depleted (after (hd (calls r)))
           \<and> outcome r = Depleted 1 \<and> length (rows r) = 1"
    by blast
  from r(1) have e: "\<exists>c\<in>set (calls r). is_depleted (before c)"
    unfolding example_depleting_run by auto
  from r(3) e have "length (calls r) = 2 \<and> outcome r = Depleted 1 \<and> length (rows r) = 1"
    by blast
  then show ?thesis using r(1,2) e by blast
qed

text \<open>
  Claim C2, as the code has it.  \<open>simulation\<close> has no check of its parameters and no
  configuration error.  A negative initial length stops the run before a society exists,
  with the \<open>ValueError\<close> of the sampling library.  For initial probabilities that are
  left to chance or lie in \<open>[0, 1]\<close>, a valid seed and a trade-off probability in
  \<open>[0, 1]\<close>: with initial lengths of at least one the run returns a non-empty table
  whatever the endowment and the two determinism parameters are; and with one initial
  length \<open>0\<close>, the other positive, and a generation limit of at most one the run returns
  the row of generation \<open>0\<close>, which records the endowment and the two determinism
  parameters as they were given.
\<close>

theorem simulation_configuration:
  "(arg_s_length a < 0 \<or> arg_t_length a < 0 \<longrightarrow> simulation G g a = Inl ValueError)
   \<and> (0 \<le> arg_seed a \<and> arg_seed a < 2 ^ 32 \<and> 1 \<le> arg_s_length a \<and> 1 \<le> arg_t_length a
        \<and> prob_ok (arg_s_prob a) \<and> prob_ok (arg_t_prob a)
        \<and> 0 \<le> arg_p_tradeoff a \<and> arg_p_tradeoff a \<le> 1 \<longrightarrow>
        (\<exists>oc rws. simulation G g a = Inr (oc, rws) \<and> rws \<noteq> []))
   \<and> (0 \<le> arg_seed a \<and> arg_seed a < 2 ^ 32 \<and> 0 \<le> arg_s_length a \<and> 0 \<le> arg_t_length a
        \<and> (0 < arg_s_length a \<or> 0 < arg_t_length a)
        \<and> prob_ok (arg_s_prob a) \<and> prob_ok (arg_t_prob a)
        \<and> 0 \<le> arg_p_tradeoff a \<and> arg_p_tradeoff a \<le> 1
        \<and> arg_generations a \<le> 1 \<longrightarrow>
        (\<exists>row. simulation G g a = Inr (Complete, [row]) \<and> col_generation row = 0
               \<and> col_initial_endowment row = arg_initial_endowment a
               \<and> col_eta row = arg_eta a \<and> col_lambda row = arg_lambda a))"
proof (intro conjI impI)
  assume "arg_s_length a < 0 \<or> arg_t_length a < 0"
  then show "simulation G g a = Inl ValueError"
    by (simp add: simulation_def simulation_run_negative_length)
next
  assume v: "0 \<le> arg_seed a \<and> arg_seed a < 2 ^ 32 \<and> 1 \<le> arg_s_length a \<and> 1 \<le> arg_t_length a
        \<and> prob_ok (arg_s_prob a) \<and> prob_ok (arg_t_prob a)
        \<and> 0 \<le> arg_p_tradeoff a \<and> arg_p_tradeoff a \<le> 1"
  then have "\<exists>r row0 new. simulation_run G g a = Inr r \<and> rows r = row0 # new"
    using simulation_run_valid[of a G g] by blast
  then obtain r row0 new where r: "simulation_run G g a = Inr r" "rows r = row0 # new"
    by blast
  from simulation_of_run[OF r(1)] r(2)
  show "\<exists>oc rws. simulation G g a = Inr (oc, rws) \<and> rws \<noteq> []" by simp
next
  assume v: "0 \<le> arg_seed a \<and> arg_seed a < 2 ^ 32 \<and> 0 \<le> arg_s_length a \<and> 0 \<le> arg_t_length a
        \<and> (0 < arg_s_length a \<or> 0 < arg_t_length a)
        \<and> prob_ok (arg_s_prob a) \<and> prob_ok (arg_t_prob a)
        \<and> 0 \<le> arg_p_tradeoff a \<and> arg_p_tradeoff a \<le> 1
        \<and> arg_generations a \<le> 1"
  then have h: "0 \<le> arg_seed a" "arg_seed a < 2 ^ 32" "0 \<le> arg_s_length a"
      "0 \<le> arg_t_length a" "0 < arg_s_length a \<or> 0 < arg_t_length a"
    and k: "nat (arg_generations a - 1) = 0"
    by simp_all
  from h show "\<exists>row. simulation G g a = Inr (Complete, [row]) \<and> col_generation row = 0
               \<and> col_initial_endowment row = arg_initial_endowment a
               \<and> col_eta row = arg_eta a \<and> col_lambda row = arg_lambda a"
  proof (rule simulation_run_start[where G = G and g = g])
    fix s np effectiveness eff av s1
    assume run: "simulation_run G g a =
         (case generation_loop a (nat (arg_generations a - 1)) 1 s1 np (rn_seed G (arg_seed a))
               [output_row a 0 s1 effectiveness av] of
          Inl x \<Rightarrow> Inl x
        | Inr r \<Rightarrow>
            Inr (r\<lparr>calls := \<lparr>call_op = Update_resource_store, before = s, after = s1\<rparr>
                              # calls r\<rparr>))"
    have "simulation G g a = Inr (Complete, [output_row a 0 s1 effectiveness av])"
      unfolding simulation_def run k by simp
    then show ?thesis by (simp add: output_row_def)
  qed
qed

text \<open>
  Claim C2 as stated says that a negative endowment is rejected.  A run with an endowment
  of \<open>-5\<close> and every other parameter valid completes and returns two rows with a store of
  \<open>-5\<close>.
\<close>

theorem simulation_configuration_counterexample:
  "arg_initial_endowment example_invalid < 0
   \<and> simulation (constant_prng (sconst 0) (sconst 0)) example_rng example_invalid
     = Inr (Complete,
            [\<lparr>col_seed = 1, col_generation = 0, col_tech_complexity = 2,
              col_space_complexity = 2, col_effectiveness = 1, col_initial_tech = 2,
              col_initial_space = 2, col_eta = 1 / 2, col_lambda = 1 / 2,
              col_initial_endowment = - 5, col_p_tradeoff = 1 / 2,
              col_available_resources = 2, col_resource_store = - 5\<rparr>,
             \<lparr>col_seed = 1, col_generation = 1, col_tech_complexity = 2,
              col_space_complexity = 2, col_effectiveness = 1, col_initial_tech = 2,
              col_initial_space = 2, col_eta = 1 / 2, col_lambda = 1 / 2,
              col_initial_endowment = - 5, col_p_tradeoff = 1 / 2,
              col_available_resources = 2, col_resource_store = - 5\<rparr>])"
  by (simp add: simulation_def example_invalid_run) (simp add: example_invalid_def)

text \<open>
  The three cases: a negative length; determinism parameters \<open>7\<close> and \<open>-3\<close> with an
  endowment of \<open>-5\<close>; and a zero length with a generation limit of one.
\<close>

theorem simulation_configuration_witness:
  "simulation (constant_prng (sconst 0) (sconst 0)) example_rng
      (example_invalid\<lparr>arg_s_length := - 1\<rparr>) = Inl ValueError
   \<and> (\<exists>oc rws. simulation (constant_prng (sconst 0) (sconst 0)) example_rng
                  (example_invalid\<lparr>arg_eta := 7, arg_lambda := - 3\<rparr>)
                 = Inr (oc, rws) \<and> rws \<noteq> [])
   \<and> (\<exists>row. simulation (constant_prng (sconst 0) (sconst 0)) example_rng
               (example_invalid\<lparr>arg_s_length := 0, arg_generations := 1\<rparr>)
             = Inr (Complete, [row])
             \<and> col_initial_endowment row = - 5)"
proof -
  have 1: "arg_s_length (example_invalid\<lparr>arg_s_length := - 1\<rparr>) < 0
           \<or> arg_t_length (example_invalid\<lparr>arg_s_length := - 1\<rparr>) < 0"
    by simp
  let ?e = "example_invalid\<lparr>arg_eta := 7, arg_lambda := - 3\<rparr>"
  have 2: "0 \<le> arg_seed ?e \<and> arg_seed ?e < 2 ^ 32
           \<and> 1 \<le> arg_s_length ?e \<and> 1 \<le> arg_t_length ?e
           \<and> prob_ok (arg_s_prob ?e) \<and> prob_ok (arg_t_prob ?e)
           \<and> 0 \<le> arg_p_tradeoff ?e \<and> arg_p_tradeoff ?e \<le> 1"
    by (simp add: example_invalid_def prob_ok_def)
  let ?z = "example_invalid\<lparr>arg_s_length := 0, arg_generations := 1\<rparr>"
  have 3: "0 \<le> arg_seed ?z \<and> arg_seed ?z < 2 ^ 32 \<and> 0 \<le> arg_s_length ?z
           \<and> 0 \<le> arg_t_length ?z \<and> (0 < arg_s_length ?z \<or> 0 < arg_t_length ?z)
           \<and> prob_ok (arg_s_prob ?z) \<and> prob_ok (arg_t_prob ?z)
           \<and> 0 \<le> arg_p_tradeoff ?z \<and> arg_p_tradeoff ?z \<le> 1
           \<and> arg_generations ?z \<le> 1"
    by (simp add: example_invalid_def prob_ok_def)
  have e: "arg_initial_endowment ?z = - 5" by (simp add: example_invalid_def)
  from simulation_configuration[of "example_invalid\<lparr>arg_s_length := - 1\<rparr>"
        "constant_prng (sconst 0) (sconst 0)" example_rng] 1
  have a: "simulation (constant_prng (sconst 0) (sconst 0)) example_rng
      (example_invalid\<lparr>arg_s_length := - 1\<rparr>) = Inl ValueError" by blast
  from simulation_configuration[of ?e "constant_prng (sconst 0) (sconst 0)" example_rng] 2
  have b: "\<exists>oc rws. simulation (constant_prng (sconst 0) (sconst 0)) example_rng ?e
                 = Inr (oc, rws) \<and> rws \<noteq> []" by blast
  from simulation_configuration[of ?z "constant_prng (sconst 0) (sconst 0)" example_rng] 3
  have "\<exists>row. simulation (constant_prng (sconst 0) (sconst 0)) example_rng ?z
             = Inr (Complete, [row])
             \<and> col_initial_endowment row = arg_initial_endowment ?z" by blast
  then have c: "\<exists>row. simulation (constant_prng (sconst 0) (sconst 0)) example_rng ?z
             = Inr (Complete, [row]) \<and> col_initial_endowment row = - 5"
    unfolding e .
  show ?thesis using a b c by blast
qed

end
